theory Spec2Isabelle
  imports Complex_Main
begin

section \<open>The block explorer's rows and the activity feed built from them\<close>

text \<open>
  A shallow embedding of \<^verbatim>\<open>packages/blockchain-api/src/blockscout.ts\<close>: the class
  \<^verbatim>\<open>BlockscoutAPI\<close> with its address registry, the three feed functions
  \<^verbatim>\<open>getFeedEvents\<close>, \<^verbatim>\<open>getFeedRewards\<close> and \<^verbatim>\<open>getTokenTransactions\<close>, and the
  function \<^verbatim>\<open>resolveTransferEventType\<close>.
\<close>

subsection \<open>Data\<close>

text \<open>
  The numeric fields of a row are decimal strings of natural numbers, as the explorer
  prints them. \<open>NumStr n\<close> is the decimal string of \<open>n\<close>; so the comparison
  \<^verbatim>\<open>tx.value !== '0'\<close> is \<open>v \<noteq> NumStr 0\<close>, and \<^verbatim>\<open>new BigNumber(s)\<close> is the number
  the string denotes.
\<close>

datatype numstr = NumStr nat

fun BigNumber :: "numstr \<Rightarrow> int" where
  "BigNumber (NumStr n) = int n"

text \<open>
  \<^verbatim>\<open>new BigNumber(s).toNumber()\<close> on a time stamp or a block number: a natural number
  that a double holds exactly.
\<close>

fun toNumber :: "numstr \<Rightarrow> nat" where
  "toNumber (NumStr n) = n"

text \<open>
  \<^verbatim>\<open>WEI_PER_GOLD = Math.pow(10, 18)\<close>. The quotient of an integer by it has at most
  18 decimal places, which \<^verbatim>\<open>BigNumber.dividedBy\<close> keeps (20 by default): the quotient
  is the exact rational. \<^verbatim>\<open>toString\<close> prints it exactly; \<^verbatim>\<open>toNumber\<close> gives the
  double nearest to it (\<open>roundToDouble\<close> below).
\<close>

definition WEI_PER_GOLD :: rat where
  "WEI_PER_GOLD = 10 ^ 18"

subsection \<open>Numbers: the double nearest to a rational\<close>

text \<open>
  The values of a number that \<^verbatim>\<open>toNumber\<close> gives on a quotient: a finite double, which
  is a rational, or an infinity. There is no \<^verbatim>\<open>NaN\<close>, the numeric strings being decimal,
  and the two zeros are one value.
\<close>

datatype number = Finite rat | PosInfinity | NegInfinity

text \<open>The number of binary digits of a natural number.\<close>

fun bitLength :: "nat \<Rightarrow> nat" where
  "bitLength n = (if n = 0 then 0 else Suc (bitLength (n div 2)))"

text \<open>
  For a positive rational \<open>q\<close>, the exponent \<open>e\<close> with \<open>2 powi e \<le> q < 2 powi (e + 1)\<close>,
  from the lengths of the numerator and the denominator.
\<close>

definition binaryExponent :: "rat \<Rightarrow> int" where
  "binaryExponent q =
     (case quotient_of q of (a, b) \<Rightarrow>
        (let k = int (bitLength (nat a)) - int (bitLength (nat b)) in
         if 2 powi k \<le> q then k else k - 1))"

text \<open>Rounding to the nearest integer, a tie to the even one.\<close>

definition roundHalfEven :: "rat \<Rightarrow> int" where
  "roundHalfEven x =
     (let f = \<lfloor>x\<rfloor>; d = x - of_int f in
      if d < 1 / 2 then f else if 1 / 2 < d then f + 1 else if even f then f else f + 1)"

text \<open>
  IEEE 754 binary64, round to nearest, ties to even: 53 significant binary digits, the
  least exponent \<open>- 1022\<close> (below it the spacing stays \<open>2 powi (- 1074)\<close>), and an
  infinity from \<open>2 ^ 1024\<close> on. This is what \<^verbatim>\<open>toNumber\<close> returns for the exact value
  of a \<^verbatim>\<open>BigNumber\<close>.
\<close>

definition roundToDouble :: "rat \<Rightarrow> number" where
  "roundToDouble q =
     (if q = 0 then Finite 0
      else
        (let e = max (binaryExponent \<bar>q\<bar>) (- 1022);
             ulp = 2 powi (e - 52);
             r = of_int (roundHalfEven (q / ulp)) * ulp in
         if 2 ^ 1024 \<le> \<bar>r\<bar> then (if 0 < q then PosInfinity else NegInfinity) else Finite r))"

text \<open>
  The fields of \<^verbatim>\<open>BlockscoutTransaction\<close> that the code reads (\<open>value\<close>, \<open>to\<close>,
  \<open>from\<close>, \<open>input\<close> and \<open>hash\<close> carry the prefix \<open>tx\<close>); the receipt fields that it
  never reads are left out.
\<close>

record BlockscoutTransaction =
  txValue :: numstr
  tokenSymbol :: string
  txTo :: string
  timeStamp :: numstr
  txInput :: string
  txHash :: string
  gasUsed :: numstr
  gasPrice :: numstr
  txFrom :: string
  contractAddress :: string
  blockNumber :: numstr

datatype EventTypes =
  EXCHANGE | RECEIVED | SENT | FAUCET | VERIFICATION_FEE | VERIFICATION_REWARD
  | ESCROW_SENT | ESCROW_RECEIVED

datatype error =
  NoTokenCorrespondingTo string
  | CannotFindTokenAddressMapping
  | CannotFindAttestationAddress
  | CannotFindEscrowAddress
  | NoValidEventTypeFound
  | TypeErrorOfUndefined

text \<open>
  What the module imports and this repository's sources do not show: the two constant
  addresses of \<^verbatim>\<open>./config\<close> and \<^verbatim>\<open>formatCommentString\<close> of \<^verbatim>\<open>./utils\<close>, taken as
  parameters.
\<close>

record externals =
  FAUCET_ADDRESS :: string
  VERIFICATION_REWARDS_ADDRESS :: string
  formatCommentString :: "string \<Rightarrow> string"

subsection \<open>String.prototype.toLowerCase on ASCII\<close>

definition lowerChar :: "char \<Rightarrow> char" where
  "lowerChar c =
     (let n = (of_char c :: nat) in if 65 \<le> n \<and> n \<le> 90 then char_of (n + 32) else c)"

definition toLowerCase :: "string \<Rightarrow> string" where
  "toLowerCase s = map lowerChar s"

subsection \<open>resolveTransferEventType\<close>

definition resolveTransferEventType ::
  "externals \<Rightarrow> string \<Rightarrow> string \<Rightarrow> string \<Rightarrow> string \<Rightarrow> string \<Rightarrow> error + (EventTypes \<times> string)"
where
  "resolveTransferEventType ext userAddress eventToAddress eventFromAddress attestations escrow =
     (if eventToAddress = userAddress \<and> eventFromAddress = FAUCET_ADDRESS ext
        then Inr (FAUCET, FAUCET_ADDRESS ext)
      else if eventToAddress = attestations \<and> eventFromAddress = userAddress
        then Inr (VERIFICATION_FEE, attestations)
      else if eventToAddress = userAddress \<and> eventFromAddress = VERIFICATION_REWARDS_ADDRESS ext
        then Inr (VERIFICATION_REWARD, VERIFICATION_REWARDS_ADDRESS ext)
      else if eventToAddress = userAddress \<and> eventFromAddress = escrow
        then Inr (ESCROW_RECEIVED, eventFromAddress)
      else if eventToAddress = userAddress
        then Inr (RECEIVED, eventFromAddress)
      else if eventFromAddress = userAddress \<and> eventToAddress = escrow
        then Inr (ESCROW_SENT, eventToAddress)
      else if eventFromAddress = userAddress
        then Inr (SENT, eventToAddress)
      else Inl NoValidEventTypeFound)"

text \<open>
  The rule table as the specification words it (section 4.4): seven rows, each a
  condition with the event type and the counterparty it dictates, and the first row
  whose condition holds decides.
\<close>

definition specRuleTable ::
  "externals \<Rightarrow> string \<Rightarrow> string \<Rightarrow> string \<Rightarrow> string \<Rightarrow> string \<Rightarrow> (bool \<times> EventTypes \<times> string) list"
where
  "specRuleTable ext viewer to_addr from_addr attestationAddr escrowAddr =
     [ (to_addr = viewer \<and> from_addr = FAUCET_ADDRESS ext, FAUCET, FAUCET_ADDRESS ext),
       (to_addr = attestationAddr \<and> from_addr = viewer, VERIFICATION_FEE, attestationAddr),
       (to_addr = viewer \<and> from_addr = VERIFICATION_REWARDS_ADDRESS ext,
          VERIFICATION_REWARD, VERIFICATION_REWARDS_ADDRESS ext),
       (to_addr = viewer \<and> from_addr = escrowAddr, ESCROW_RECEIVED, from_addr),
       (to_addr = viewer, RECEIVED, from_addr),
       (from_addr = viewer \<and> to_addr = escrowAddr, ESCROW_SENT, escrowAddr),
       (from_addr = viewer, SENT, to_addr) ]"

fun firstMatch :: "(bool \<times> 'a) list \<Rightarrow> 'a option" where
  "firstMatch [] = None"
| "firstMatch ((c, r) # rules) = (if c then Some r else firstMatch rules)"

subsection \<open>Array.prototype.sort with a comparator\<close>

text \<open>
  \<^verbatim>\<open>xs.sort(cmp)\<close> puts \<open>a\<close> before \<open>b\<close> where \<open>cmp a b < 0\<close> and, being stable
  (ECMAScript 2019), keeps the order of the elements that the comparator does not
  separate. For a comparator that is a difference of keys the result is the one of a
  stable insertion sort.
\<close>

fun insertBy :: "('a \<Rightarrow> 'a \<Rightarrow> int) \<Rightarrow> 'a \<Rightarrow> 'a list \<Rightarrow> 'a list" where
  "insertBy cmp x [] = [x]"
| "insertBy cmp x (y # ys) = (if cmp x y \<le> 0 then x # y # ys else y # insertBy cmp x ys)"

definition sortBy :: "('a \<Rightarrow> 'a \<Rightarrow> int) \<Rightarrow> 'a list \<Rightarrow> 'a list" where
  "sortBy cmp xs = foldr (insertBy cmp) xs []"

subsection \<open>The address registry of BlockscoutAPI\<close>

text \<open>
  The five fields are those of the class, each \<^verbatim>\<open>| undefined\<close> (\<open>None\<close>), and those
  of the object that \<^verbatim>\<open>getContractAddresses\<close> of \<^verbatim>\<open>./utils\<close> resolves to, where
  each is present. One record type serves both.
\<close>

record ('m, 'a) addresses =
  tokenAddressMapping :: 'm
  attestationsAddress :: 'a
  escrowAddress :: 'a
  goldTokenAddress :: 'a
  stableTokenAddress :: 'a

type_synonym BlockscoutAPI = "((string \<rightharpoonup> string) option, string option) addresses"

type_synonym ContractAddresses = "(string \<rightharpoonup> string, string) addresses"

text \<open>A string field in a condition: \<^verbatim>\<open>undefined\<close> and the empty string are falsy.\<close>

fun truthy :: "string option \<Rightarrow> bool" where
  "truthy None = False"
| "truthy (Some s) = (s \<noteq> [])"

text \<open>
  \<open>ensureTokenAddresses resolved api\<close> returns the instance after the call and the
  number of calls of \<^verbatim>\<open>getContractAddresses\<close> that it made; \<open>resolved\<close> is what such
  a call resolves to.
\<close>

definition ensureTokenAddresses :: "ContractAddresses \<Rightarrow> BlockscoutAPI \<Rightarrow> BlockscoutAPI \<times> nat" where
  "ensureTokenAddresses resolved api =
     (if tokenAddressMapping api \<noteq> None \<and> truthy (attestationsAddress api)
         \<and> truthy (escrowAddress api) \<and> truthy (goldTokenAddress api)
         \<and> truthy (stableTokenAddress api)
      then (api, 0)
      else (\<lparr> tokenAddressMapping = Some (tokenAddressMapping resolved),
              attestationsAddress = Some (attestationsAddress resolved),
              escrowAddress = Some (escrowAddress resolved),
              goldTokenAddress = Some (goldTokenAddress resolved),
              stableTokenAddress = Some (stableTokenAddress resolved) \<rparr>, 1))"

definition getTokenAtAddress :: "BlockscoutAPI \<Rightarrow> string \<Rightarrow> error + string" where
  "getTokenAtAddress api tokenAddress =
     (case tokenAddressMapping api of
        Some m \<Rightarrow>
          (let lowerCaseTokenAddress = toLowerCase tokenAddress in
           case m lowerCaseTokenAddress of
             Some token \<Rightarrow> Inr token
           | None \<Rightarrow> Inl (NoTokenCorrespondingTo lowerCaseTokenAddress))
      | None \<Rightarrow> Inl CannotFindTokenAddressMapping)"

definition getAttestationAddress :: "BlockscoutAPI \<Rightarrow> error + string" where
  "getAttestationAddress api =
     (case attestationsAddress api of
        Some a \<Rightarrow> (if a \<noteq> [] then Inr a else Inl CannotFindAttestationAddress)
      | None \<Rightarrow> Inl CannotFindAttestationAddress)"

definition getEscrowAddress :: "BlockscoutAPI \<Rightarrow> error + string" where
  "getEscrowAddress api =
     (case escrowAddress api of
        Some a \<Rightarrow> (if a \<noteq> [] then Inr a else Inl CannotFindEscrowAddress)
      | None \<Rightarrow> Inl CannotFindEscrowAddress)"

subsection \<open>Grouping the rows by transaction hash\<close>

text \<open>
  \<^verbatim>\<open>txHashToEventTransactions\<close> is a \<^verbatim>\<open>Map\<close>: its keys stay in the order of their
  first insertion, which is the order \<^verbatim>\<open>forEach\<close> visits them in. \<open>pushTx\<close> is one
  round of the loop: \<^verbatim>\<open>get(tx.hash) || []\<close>, \<^verbatim>\<open>push(tx)\<close>, \<^verbatim>\<open>set\<close>.
\<close>

type_synonym txGroups = "(string \<times> BlockscoutTransaction list) list"

fun pushTx :: "BlockscoutTransaction \<Rightarrow> txGroups \<Rightarrow> txGroups" where
  "pushTx tx [] = [(txHash tx, [tx])]"
| "pushTx tx ((h, currentTX) # m) =
     (if h = txHash tx then (h, currentTX @ [tx]) # m else (h, currentTX) # pushTx tx m)"

definition groupByHash :: "BlockscoutTransaction list \<Rightarrow> txGroups" where
  "groupByHash rawTransactions = foldl (\<lambda>m tx. pushTx tx m) [] rawTransactions"

text \<open>
  \<^verbatim>\<open>forEach\<close> over the groups: the callback pushes the events of its group, in order,
  and the first exception ends the whole call.
\<close>

fun forEachGroup :: "('g \<Rightarrow> error + 'e list) \<Rightarrow> 'g list \<Rightarrow> error + 'e list" where
  "forEachGroup f [] = Inr []"
| "forEachGroup f (g # gs) =
     (case f g of
        Inl e \<Rightarrow> Inl e
      | Inr pushed \<Rightarrow>
          (case forEachGroup f gs of Inl e \<Rightarrow> Inl e | Inr rest \<Rightarrow> Inr (pushed @ rest)))"

subsection \<open>Events\<close>

text \<open>
  An event object: the fields every event has, with the type of \<open>block\<close> and the rest
  of the fields (\<open>payload\<close>) depending on the function that builds it.
\<close>

record ('b, 'p) Event =
  type :: EventTypes
  timestamp :: nat
  block :: 'b
  payload :: 'p
  hash :: string

text \<open>
  The events of \<open>getFeedEvents\<close> and \<open>getFeedRewards\<close>: an exchange has
  \<open>inSymbol\<close>, \<open>inValue\<close>, \<open>outSymbol\<close>, \<open>outValue\<close>; a transfer has \<open>value\<close>,
  \<open>address\<close>, \<open>comment\<close>, \<open>symbol\<close>. The values are numbers.
\<close>

datatype FeedPayload =
  ExchangeValues (inSymbol: string) (inValue: number) (outSymbol: string) (outValue: number)
  | TransferValues (transferValue: number) (address: string) (comment: string) (symbol: string)

type_synonym EventInterface = "(nat, FeedPayload) Event"

text \<open>
  The events of \<open>getTokenTransactions\<close>: \<open>block\<close> is the row's string, and the
  amounts are objects with \<open>value\<close>, \<open>currencyCode\<close> and \<open>timestamp\<close>.
\<close>

record MoneyAmount =
  amountValue :: rat
  currencyCode :: string
  amountTimestamp :: nat

datatype TokenPayload =
  ExchangeAmounts (amount: MoneyAmount) (makerAmount: MoneyAmount) (takerAmount: MoneyAmount)
  | TransferAmount (amount: MoneyAmount) (amountAddress: string) (amountComment: string)

type_synonym TokenEvent = "(numstr, TokenPayload) Event"

text \<open>The amount objects that an event of \<open>getTokenTransactions\<close> holds.\<close>

fun payloadAmounts :: "TokenPayload \<Rightarrow> MoneyAmount list" where
  "payloadAmounts (ExchangeAmounts a m t) = [a, m, t]"
| "payloadAmounts (TransferAmount a _ _) = [a]"

text \<open>The comparator of all three final sorts: \<^verbatim>\<open>(a, b) => b.timestamp - a.timestamp\<close>.\<close>

definition byTimestampDesc :: "('b, 'p) Event \<Rightarrow> ('b, 'p) Event \<Rightarrow> int" where
  "byTimestampDesc a b = int (timestamp b) - int (timestamp a)"

text \<open>\<^verbatim>\<open>event.input ? formatCommentString(event.input) : ''\<close>\<close>

definition commentOf :: "externals \<Rightarrow> BlockscoutTransaction \<Rightarrow> string" where
  "commentOf ext event = (if txInput event \<noteq> [] then formatCommentString ext (txInput event) else [])"

text \<open>
  The two legs of a group of two rows, \<open>(inEvent, outEvent)\<close>, as both
  \<open>getFeedEvents\<close> and \<open>getTokenTransactions\<close> choose them.
\<close>

definition exchangeLegs ::
  "string \<Rightarrow> BlockscoutTransaction \<Rightarrow> BlockscoutTransaction
     \<Rightarrow> BlockscoutTransaction \<times> BlockscoutTransaction" where
  "exchangeLegs userAddress t0 t1 =
     (if toLowerCase (txFrom t0) = userAddress then (t0, t1) else (t1, t0))"

subsection \<open>getFeedEvents\<close>

text \<open>The object pushed for a group of two rows, from its two legs.\<close>

definition feedExchangeEvent ::
  "BlockscoutAPI \<Rightarrow> string \<Rightarrow> BlockscoutTransaction \<Rightarrow> BlockscoutTransaction
     \<Rightarrow> error + EventInterface" where
  "feedExchangeEvent api txhash inEvent outEvent =
     (case getTokenAtAddress api (contractAddress inEvent) of
        Inl e \<Rightarrow> Inl e
      | Inr inSym \<Rightarrow>
          (case getTokenAtAddress api (contractAddress outEvent) of
             Inl e \<Rightarrow> Inl e
           | Inr outSym \<Rightarrow>
               Inr \<lparr> type = EXCHANGE,
                     timestamp = toNumber (timeStamp inEvent),
                     block = toNumber (blockNumber inEvent),
                     payload = ExchangeValues
                       inSym (roundToDouble (of_int (BigNumber (txValue inEvent)) / WEI_PER_GOLD))
                       outSym (roundToDouble (of_int (BigNumber (txValue outEvent)) / WEI_PER_GOLD)),
                     hash = txhash \<rparr>))"

text \<open>
  The arguments of the call of \<open>resolveTransferEventType\<close> are evaluated before it,
  and \<open>getTokenAtAddress\<close> after it, inside the pushed object: the first of them to
  throw decides the error.
\<close>

definition feedTransferEvent ::
  "externals \<Rightarrow> BlockscoutAPI \<Rightarrow> string \<Rightarrow> string \<Rightarrow> BlockscoutTransaction
     \<Rightarrow> error + EventInterface" where
  "feedTransferEvent ext api userAddress txhash event =
     (let eventToAddress = toLowerCase (txTo event);
          eventFromAddress = toLowerCase (txFrom event) in
      case getAttestationAddress api of
        Inl e \<Rightarrow> Inl e
      | Inr attestations \<Rightarrow>
      (case getEscrowAddress api of
        Inl e \<Rightarrow> Inl e
      | Inr escrow \<Rightarrow>
      (case resolveTransferEventType ext userAddress eventToAddress eventFromAddress
              attestations escrow of
        Inl e \<Rightarrow> Inl e
      | Inr (ty, addr) \<Rightarrow>
      (case getTokenAtAddress api (contractAddress event) of
        Inl e \<Rightarrow> Inl e
      | Inr token \<Rightarrow>
          Inr \<lparr> type = ty,
                timestamp = toNumber (timeStamp event),
                block = toNumber (blockNumber event),
                payload = TransferValues
                  (roundToDouble (of_int (BigNumber (txValue event)) / WEI_PER_GOLD)) addr (commentOf ext event)
                  (if token \<noteq> [] then token else ''unknown''),
                hash = txhash \<rparr>))))"

text \<open>
  The callback of \<^verbatim>\<open>forEach\<close>. A group of the map is never empty; on an empty
  one \<^verbatim>\<open>transactions[0]\<close> would be \<^verbatim>\<open>undefined\<close> and reading its \<^verbatim>\<open>input\<close> a
  \<^verbatim>\<open>TypeError\<close>.
\<close>

definition feedGroupEvents ::
  "externals \<Rightarrow> BlockscoutAPI \<Rightarrow> string \<Rightarrow> string \<times> BlockscoutTransaction list
     \<Rightarrow> error + EventInterface list" where
  "feedGroupEvents ext api userAddress g =
     (case g of (txhash, transactions) \<Rightarrow>
        if length transactions = 2 then
          (case exchangeLegs userAddress (transactions ! 0) (transactions ! 1) of
             (inEvent, outEvent) \<Rightarrow>
               map_sum id (\<lambda>ev. [ev]) (feedExchangeEvent api txhash inEvent outEvent))
        else
          (case transactions of
             [] \<Rightarrow> Inl TypeErrorOfUndefined
           | event # _ \<Rightarrow>
               map_sum id (\<lambda>ev. [ev]) (feedTransferEvent ext api userAddress txhash event)))"

text \<open>The events in the order the groups push them, before the final sort.\<close>

definition feedEventsPushed ::
  "externals \<Rightarrow> BlockscoutAPI \<Rightarrow> string \<Rightarrow> BlockscoutTransaction list
     \<Rightarrow> error + EventInterface list" where
  "feedEventsPushed ext api userAddress rawTransactions =
     forEachGroup (feedGroupEvents ext api userAddress) (groupByHash rawTransactions)"

text \<open>
  \<open>getFeedEvents ext resolved rawTransactions argsAddress api\<close>: \<open>rawTransactions\<close> is
  what \<^verbatim>\<open>getRawTokenTransactions(args)\<close> resolves to, \<open>argsAddress\<close> is \<^verbatim>\<open>args.address\<close>,
  \<open>api\<close> the instance before the call. The result is the returned list or the error
  thrown, with the instance after the call.
\<close>

definition getFeedEvents ::
  "externals \<Rightarrow> ContractAddresses \<Rightarrow> BlockscoutTransaction list \<Rightarrow> string \<Rightarrow> BlockscoutAPI
     \<Rightarrow> (error + EventInterface list) \<times> BlockscoutAPI" where
  "getFeedEvents ext resolved rawTransactions argsAddress api =
     (let userAddress = toLowerCase argsAddress;
          api' = fst (ensureTokenAddresses resolved api) in
      (map_sum id (sortBy byTimestampDesc)
         (feedEventsPushed ext api' userAddress rawTransactions), api'))"

subsection \<open>getFeedRewards\<close>

fun rewardsPushed ::
  "externals \<Rightarrow> BlockscoutAPI \<Rightarrow> BlockscoutTransaction list \<Rightarrow> error + EventInterface list" where
  "rewardsPushed ext api [] = Inr []"
| "rewardsPushed ext api (t # ts) =
     (if toLowerCase (txFrom t) \<noteq> VERIFICATION_REWARDS_ADDRESS ext then rewardsPushed ext api ts
      else
        (case getTokenAtAddress api (contractAddress t) of
           Inl e \<Rightarrow> Inl e
         | Inr token \<Rightarrow>
             (case rewardsPushed ext api ts of
                Inl e \<Rightarrow> Inl e
              | Inr rest \<Rightarrow>
                  Inr (\<lparr> type = VERIFICATION_REWARD,
                         timestamp = toNumber (timeStamp t),
                         block = toNumber (blockNumber t),
                         payload = TransferValues
                           (roundToDouble (of_int (BigNumber (txValue t)) / WEI_PER_GOLD))
                           (VERIFICATION_REWARDS_ADDRESS ext) (commentOf ext t) token,
                         hash = txHash t \<rparr> # rest))))"

definition getFeedRewards ::
  "externals \<Rightarrow> ContractAddresses \<Rightarrow> BlockscoutTransaction list \<Rightarrow> BlockscoutAPI
     \<Rightarrow> (error + EventInterface list) \<times> BlockscoutAPI" where
  "getFeedRewards ext resolved rawTransactions api =
     (let api' = fst (ensureTokenAddresses resolved api) in
      (map_sum id (sortBy byTimestampDesc) (rewardsPushed ext api' rawTransactions), api'))"

subsection \<open>getTokenTransactions\<close>

text \<open>
  The exchange of a group of two rows, from its two legs: the events pushed, none when
  neither leg has the requested symbol. \<^verbatim>\<open>find\<close> returns \<open>inEvent\<close> itself when
  \<open>inEvent\<close> has the requested symbol, and otherwise \<open>outEvent\<close>, whose symbol then
  differs from that of \<open>inEvent\<close>: the identity test \<^verbatim>\<open>tokenEvent === inEvent\<close> and
  the equality of the rows agree.
\<close>

definition tokenExchangeEvents ::
  "string \<Rightarrow> string \<Rightarrow> BlockscoutTransaction \<Rightarrow> BlockscoutTransaction \<Rightarrow> TokenEvent list" where
  "tokenExchangeEvents token txhash inEvent outEvent =
     (case find (\<lambda>event. tokenSymbol event = token) [inEvent, outEvent] of
        None \<Rightarrow> []
      | Some tokenEvent \<Rightarrow>
          (let ts = toNumber (timeStamp inEvent) * 1000 in
           [\<lparr> type = EXCHANGE,
              timestamp = ts,
              block = blockNumber inEvent,
              payload = ExchangeAmounts
                \<lparr> amountValue =
                    of_int (BigNumber (txValue tokenEvent)
                              * (if tokenEvent = inEvent then - 1 else 1)) / WEI_PER_GOLD,
                  currencyCode = tokenSymbol tokenEvent,
                  amountTimestamp = ts \<rparr>
                \<lparr> amountValue = of_int (BigNumber (txValue inEvent)) / WEI_PER_GOLD,
                  currencyCode = tokenSymbol inEvent,
                  amountTimestamp = ts \<rparr>
                \<lparr> amountValue = of_int (BigNumber (txValue outEvent)) / WEI_PER_GOLD,
                  currencyCode = tokenSymbol outEvent,
                  amountTimestamp = ts \<rparr>,
              hash = txhash \<rparr>]))"

text \<open>The filter of the other branch.\<close>

definition isStableTransfer :: "BlockscoutAPI \<Rightarrow> BlockscoutTransaction \<Rightarrow> bool" where
  "isStableTransfer api tx =
     (Some (toLowerCase (contractAddress tx)) = stableTokenAddress api \<and> txValue tx \<noteq> NumStr 0)"

text \<open>
  Its comparator, \<^verbatim>\<open>new BigNumber(b.value).minus(new BigNumber(a.value)).toNumber()\<close>:
  the double has the sign of the difference.
\<close>

definition byValueDesc :: "BlockscoutTransaction \<Rightarrow> BlockscoutTransaction \<Rightarrow> int" where
  "byValueDesc a b = BigNumber (txValue b) - BigNumber (txValue a)"

text \<open>
  The \<^verbatim>\<open>switch\<close> on the number of sorted stable-token rows, with the early return on
  none: the row that is classified, if any.
\<close>

fun selectTransfer :: "BlockscoutTransaction list \<Rightarrow> BlockscoutTransaction option" where
  "selectTransfer [tx0] = Some tx0"
| "selectTransfer [tx0, tx1, tx2] =
     (let gasValue = BigNumber (gasUsed tx0) * BigNumber (gasPrice tx0);
          tx0Value = BigNumber (txValue tx0);
          tx1Value = BigNumber (txValue tx1);
          tx2Value = BigNumber (txValue tx2) in
      if tx0Value + tx1Value = gasValue then Some tx2
      else if tx0Value + tx2Value = gasValue then Some tx1
      else Some tx0)"
| "selectTransfer _ = None"

definition tokenTransferEvent ::
  "externals \<Rightarrow> BlockscoutAPI \<Rightarrow> string \<Rightarrow> string \<Rightarrow> BlockscoutTransaction
     \<Rightarrow> error + TokenEvent" where
  "tokenTransferEvent ext api userAddress txhash event =
     (let eventToAddress = toLowerCase (txTo event);
          eventFromAddress = toLowerCase (txFrom event) in
      case getAttestationAddress api of
        Inl e \<Rightarrow> Inl e
      | Inr attestations \<Rightarrow>
      (case getEscrowAddress api of
        Inl e \<Rightarrow> Inl e
      | Inr escrow \<Rightarrow>
      (case resolveTransferEventType ext userAddress eventToAddress eventFromAddress
              attestations escrow of
        Inl e \<Rightarrow> Inl e
      | Inr (ty, addr) \<Rightarrow>
          (let ts = toNumber (timeStamp event) * 1000 in
           Inr \<lparr> type = ty,
                 timestamp = ts,
                 block = blockNumber event,
                 payload = TransferAmount
                   \<lparr> amountValue =
                       of_int (BigNumber (txValue event)
                                 * (if eventFromAddress = userAddress then - 1 else 1))
                         / WEI_PER_GOLD,
                     currencyCode = tokenSymbol event,
                     amountTimestamp = ts \<rparr>
                   addr (commentOf ext event),
                 hash = txhash \<rparr>))))"

definition stableTokenTxs :: "BlockscoutAPI \<Rightarrow> BlockscoutTransaction list \<Rightarrow> BlockscoutTransaction list" where
  "stableTokenTxs api transactions = sortBy byValueDesc (filter (isStableTransfer api) transactions)"

definition tokenGroupEvents ::
  "externals \<Rightarrow> BlockscoutAPI \<Rightarrow> string \<Rightarrow> string \<Rightarrow> string \<times> BlockscoutTransaction list
     \<Rightarrow> error + TokenEvent list" where
  "tokenGroupEvents ext api userAddress token g =
     (case g of (txhash, transactions) \<Rightarrow>
        if length transactions = 2 then
          (case exchangeLegs userAddress (transactions ! 0) (transactions ! 1) of
             (inEvent, outEvent) \<Rightarrow> Inr (tokenExchangeEvents token txhash inEvent outEvent))
        else
          (case selectTransfer (stableTokenTxs api transactions) of
             None \<Rightarrow> Inr []
           | Some event \<Rightarrow>
               map_sum id (\<lambda>ev. [ev]) (tokenTransferEvent ext api userAddress txhash event)))"

definition tokenEventsPushed ::
  "externals \<Rightarrow> BlockscoutAPI \<Rightarrow> string \<Rightarrow> string \<Rightarrow> BlockscoutTransaction list
     \<Rightarrow> error + TokenEvent list" where
  "tokenEventsPushed ext api userAddress token rawTransactions =
     forEachGroup (tokenGroupEvents ext api userAddress token) (groupByHash rawTransactions)"

text \<open>
  \<open>getTokenTransactions ext resolved rawTransactions argsAddress token api\<close>, with
  \<open>token\<close> for \<^verbatim>\<open>args.token\<close>.
\<close>

definition getTokenTransactions ::
  "externals \<Rightarrow> ContractAddresses \<Rightarrow> BlockscoutTransaction list \<Rightarrow> string \<Rightarrow> string
     \<Rightarrow> BlockscoutAPI \<Rightarrow> (error + TokenEvent list) \<times> BlockscoutAPI" where
  "getTokenTransactions ext resolved rawTransactions argsAddress token api =
     (let userAddress = toLowerCase argsAddress;
          api' = fst (ensureTokenAddresses resolved api) in
      (map_sum id
         (\<lambda>events. sortBy byTimestampDesc
            (filter (\<lambda>event. currencyCode (amount (payload event)) = token) events))
         (tokenEventsPushed ext api' userAddress token rawTransactions), api'))"

subsection \<open>Rows up to the letter case of their addresses\<close>

text \<open>
  The row with its three address fields lower-cased. Two rows differ only in the
  letter case of their address fields exactly when this maps them to the same row.
\<close>

definition lowerCaseAddresses :: "BlockscoutTransaction \<Rightarrow> BlockscoutTransaction" where
  "lowerCaseAddresses tx =
     tx \<lparr> txTo := toLowerCase (txTo tx), txFrom := toLowerCase (txFrom tx),
          contractAddress := toLowerCase (contractAddress tx) \<rparr>"

subsection \<open>Sample inputs\<close>

text \<open>
  Concrete inputs for the instances below: a populated registry with a stable token at
  \<open>0xc0\<close> and a gold token at \<open>0xc1\<close>, and rows with a gas cost of \<open>3 \<times> 2\<close>.
\<close>

definition sampleExternals :: externals where
  "sampleExternals =
     \<lparr> FAUCET_ADDRESS = ''0xfa'', VERIFICATION_REWARDS_ADDRESS = ''0xfe'',
       formatCommentString = (\<lambda>s. s) \<rparr>"

definition sampleAddresses :: ContractAddresses where
  "sampleAddresses =
     \<lparr> tokenAddressMapping = [''0xc0'' \<mapsto> ''cUSD'', ''0xc1'' \<mapsto> ''cGLD''],
       attestationsAddress = ''0xa7'', escrowAddress = ''0xe5'',
       goldTokenAddress = ''0xc1'', stableTokenAddress = ''0xc0'' \<rparr>"

definition sampleApi :: BlockscoutAPI where
  "sampleApi =
     \<lparr> tokenAddressMapping = Some [''0xc0'' \<mapsto> ''cUSD'', ''0xc1'' \<mapsto> ''cGLD''],
       attestationsAddress = Some ''0xa7'', escrowAddress = Some ''0xe5'',
       goldTokenAddress = Some ''0xc1'', stableTokenAddress = Some ''0xc0'' \<rparr>"

definition sampleRow ::
  "string \<Rightarrow> string \<Rightarrow> string \<Rightarrow> string \<Rightarrow> string \<Rightarrow> nat \<Rightarrow> nat \<Rightarrow> BlockscoutTransaction" where
  "sampleRow h f t c s v ts =
     \<lparr> txValue = NumStr v, tokenSymbol = s, txTo = t, timeStamp = NumStr ts, txInput = [],
       txHash = h, gasUsed = NumStr 3, gasPrice = NumStr 2, txFrom = f, contractAddress = c,
       blockNumber = NumStr 7 \<rparr>"

text \<open>
  Three transfers sent by \<open>0xaa\<close>, in three transactions, the first and the third at
  the same time; and four rows of which the first, second and fourth are verification
  rewards, the first and the fourth at the same time.
\<close>

definition sampleTransfers :: "BlockscoutTransaction list" where
  "sampleTransfers =
     [sampleRow ''h1'' ''0xaa'' ''0xbb'' ''0xc0'' ''cUSD'' 5 50,
      sampleRow ''h2'' ''0xaa'' ''0xbb'' ''0xc0'' ''cUSD'' 6 60,
      sampleRow ''h3'' ''0xaa'' ''0xbb'' ''0xc0'' ''cUSD'' 7 50]"

definition sampleRewardRows :: "BlockscoutTransaction list" where
  "sampleRewardRows =
     [sampleRow ''h1'' ''0xfe'' ''0xaa'' ''0xc0'' ''cUSD'' 5 50,
      sampleRow ''h2'' ''0xfe'' ''0xaa'' ''0xc0'' ''cUSD'' 6 60,
      sampleRow ''h3'' ''0xbb'' ''0xaa'' ''0xc0'' ''cUSD'' 8 70,
      sampleRow ''h4'' ''0xfe'' ''0xaa'' ''0xc0'' ''cUSD'' 7 50]"



section \<open>Theorems\<close>

subsection \<open>Auxiliary facts\<close>

lemma length_insertBy: "length (insertBy cmp x ys) = Suc (length ys)"
  by (induction ys) auto

lemma length_sortBy: "length (sortBy cmp xs) = length xs"
  by (induction xs) (auto simp: sortBy_def length_insertBy)

lemma set_insertBy: "set (insertBy cmp x ys) = insert x (set ys)"
  by (induction ys) auto

lemma set_sortBy: "set (sortBy cmp xs) = set xs"
  by (induction xs) (auto simp: sortBy_def set_insertBy)

lemma sortBy_single: "sortBy cmp [x] = [x]"
  by (simp add: sortBy_def)

lemma selectTransfer_None: "(selectTransfer xs = None) = (length xs \<noteq> 1 \<and> length xs \<noteq> 3)"
  by (induction xs rule: selectTransfer.induct) (auto simp: Let_def)

lemma selectTransfer_mem: "selectTransfer xs = Some e \<Longrightarrow> e \<in> set xs"
  by (induction xs rule: selectTransfer.induct) (auto simp: Let_def split: if_splits)

lemma length_stableTokenTxs:
  "length (stableTokenTxs api txs) = length (filter (isStableTransfer api) txs)"
  by (simp add: stableTokenTxs_def length_sortBy)

lemma map_sum_singleton_not_Nil: "map_sum f (\<lambda>ev. [ev]) r \<noteq> Inr []"
  by (cases r) simp_all

lemma map_sum_singleton_Inr:
  "map_sum f (\<lambda>ev. [ev]) r = Inr p \<Longrightarrow> \<exists>ev. r = Inr ev \<and> p = [ev]"
  by (cases r) auto

lemma foldl_pushTx_same_hash:
  "\<forall>tx\<in>set txs. txHash tx = h \<Longrightarrow>
     foldl (\<lambda>m tx. pushTx tx m) [(h, acc)] txs = [(h, acc @ txs)]"
  by (induction txs arbitrary: acc) auto

lemma groupByHash_one_hash:
  "\<forall>tx\<in>set txs. txHash tx = txHash tx0 \<Longrightarrow> groupByHash (tx0 # txs) = [(txHash tx0, tx0 # txs)]"
  by (simp add: groupByHash_def foldl_pushTx_same_hash)

subsection \<open>The double nearest to a rational\<close>

declare bitLength.simps [simp del]











subsection \<open>The sample inputs, evaluated\<close>

lemma lower_samples:
  "toLowerCase ''0xaa'' = ''0xaa''" "toLowerCase ''0xAA'' = ''0xaa''"
  "toLowerCase ''0xbb'' = ''0xbb''" "toLowerCase ''0xBB'' = ''0xbb''"
  "toLowerCase ''0xcc'' = ''0xcc''"
  "toLowerCase ''0xc0'' = ''0xc0''" "toLowerCase ''0xC0'' = ''0xc0''"
  "toLowerCase ''0xc1'' = ''0xc1''" "toLowerCase ''0xfe'' = ''0xfe''"
  by code_simp+

lemma sampleRow_sel:
  "txHash (sampleRow h f t c s v ts) = h" "txFrom (sampleRow h f t c s v ts) = f"
  "txTo (sampleRow h f t c s v ts) = t" "contractAddress (sampleRow h f t c s v ts) = c"
  "tokenSymbol (sampleRow h f t c s v ts) = s" "txValue (sampleRow h f t c s v ts) = NumStr v"
  "timeStamp (sampleRow h f t c s v ts) = NumStr ts" "txInput (sampleRow h f t c s v ts) = []"
  "gasUsed (sampleRow h f t c s v ts) = NumStr 3" "gasPrice (sampleRow h f t c s v ts) = NumStr 2"
  "blockNumber (sampleRow h f t c s v ts) = NumStr 7"
  by (simp_all add: sampleRow_def)

lemma sampleRow_eq:
  "(sampleRow h f t c s v ts = sampleRow h' f' t' c' s' v' ts')
     = (h = h' \<and> f = f' \<and> t = t' \<and> c = c' \<and> s = s' \<and> v = v' \<and> ts = ts')"
  by (auto simp: sampleRow_def)

lemma ensure_sample: "fst (ensureTokenAddresses sampleAddresses sampleApi) = sampleApi"
  by (simp add: ensureTokenAddresses_def sampleApi_def)

lemma sample_registry:
  "getAttestationAddress sampleApi = Inr ''0xa7''"
  "getEscrowAddress sampleApi = Inr ''0xe5''"
  "getTokenAtAddress sampleApi ''0xc0'' = Inr ''cUSD''"
  "getTokenAtAddress sampleApi ''0xC0'' = Inr ''cUSD''"
  "getTokenAtAddress sampleApi ''0xc1'' = Inr ''cGLD''"
  "stableTokenAddress sampleApi = Some ''0xc0''"
  by (simp_all add: getAttestationAddress_def getEscrowAddress_def getTokenAtAddress_def
        sampleApi_def lower_samples)

lemma sample_feed_transfer:
  "feedTransferEvent sampleExternals sampleApi ''0xaa'' h
     (sampleRow h ''0xaa'' ''0xbb'' ''0xc0'' ''cUSD'' v ts)
   = Inr \<lparr>type = SENT, timestamp = ts, block = 7,
           payload = TransferValues (roundToDouble (of_nat v / 10 ^ 18)) ''0xbb'' [] ''cUSD'', hash = h\<rparr>"
  by (simp add: feedTransferEvent_def sampleRow_sel lower_samples sample_registry
        resolveTransferEventType_def sampleExternals_def commentOf_def WEI_PER_GOLD_def)

lemma sample_feed_exchange:
  "feedExchangeEvent sampleApi h (sampleRow h f t ''0xc1'' s v ts) (sampleRow h f' t' ''0xc0'' s' v' ts')
   = Inr \<lparr>type = EXCHANGE, timestamp = ts, block = 7,
           payload = ExchangeValues ''cGLD'' (roundToDouble (of_nat v / 10 ^ 18)) ''cUSD'' (roundToDouble (of_nat v' / 10 ^ 18)),
           hash = h\<rparr>"
  "feedExchangeEvent sampleApi h (sampleRow h f t ''0xc0'' s v ts) (sampleRow h f' t' ''0xc1'' s' v' ts')
   = Inr \<lparr>type = EXCHANGE, timestamp = ts, block = 7,
           payload = ExchangeValues ''cUSD'' (roundToDouble (of_nat v / 10 ^ 18)) ''cGLD'' (roundToDouble (of_nat v' / 10 ^ 18)),
           hash = h\<rparr>"
  by (simp_all add: feedExchangeEvent_def sampleRow_sel sample_registry WEI_PER_GOLD_def)

lemma sample_token_transfer:
  "tokenTransferEvent sampleExternals sampleApi ''0xaa'' h (sampleRow h ''0xaa'' ''0xbb'' c s v ts)
   = Inr \<lparr>type = SENT, timestamp = ts * 1000, block = NumStr 7,
           payload = TransferAmount
             \<lparr>amountValue = - of_nat v / 10 ^ 18, currencyCode = s, amountTimestamp = ts * 1000\<rparr>
             ''0xbb'' [],
           hash = h\<rparr>"
  by (simp add: tokenTransferEvent_def sampleRow_sel lower_samples sample_registry
        resolveTransferEventType_def sampleExternals_def commentOf_def WEI_PER_GOLD_def Let_def)

lemma sample_stable:
  "isStableTransfer sampleApi (sampleRow h f t ''0xc0'' s v ts) = (v \<noteq> 0)"
  "isStableTransfer sampleApi (sampleRow h f t ''0xc1'' s v ts) = False"
  by (simp_all add: isStableTransfer_def sampleRow_sel lower_samples sample_registry)

subsection \<open>Classification of the groups\<close>

text \<open>
  C1. For all addresses, \<open>resolveTransferEventType\<close> returns the event type and the
  counterparty of the first matching row of the specification's seven-row table, and it
  throws exactly when no row matches, which is exactly when the viewing address is
  neither the receiver nor the sender.
\<close>

theorem resolveTransferEventType_first_match:
  "resolveTransferEventType ext viewer t f att esc =
     (case firstMatch (specRuleTable ext viewer t f att esc) of
        Some r \<Rightarrow> Inr r
      | None \<Rightarrow> Inl NoValidEventTypeFound)
   \<and> (isl (resolveTransferEventType ext viewer t f att esc)
        = (firstMatch (specRuleTable ext viewer t f att esc) = None))
   \<and> (isl (resolveTransferEventType ext viewer t f att esc) = (t \<noteq> viewer \<and> f \<noteq> viewer))"
  by (auto simp: resolveTransferEventType_def specRuleTable_def)

text \<open>
  C2, as the code has it. In a group of exactly two rows the first row is the in leg,
  and the second the out leg, exactly when the lower-cased \<open>from\<close> of the first row is
  the viewing address, which covers the case where both rows match. Otherwise the
  second row is the in leg and the first the out leg, whether the \<open>from\<close> of the second
  row matches or neither does. Both \<open>getFeedEvents\<close> and \<open>getTokenTransactions\<close>
  build their exchange from the legs so chosen.
\<close>

theorem exchange_legs_by_first_row:
  "(toLowerCase (txFrom t0) = userAddress \<longrightarrow>
      feedGroupEvents ext api userAddress (h, [t0, t1])
        = map_sum id (\<lambda>ev. [ev]) (feedExchangeEvent api h t0 t1)
      \<and> tokenGroupEvents ext api userAddress token (h, [t0, t1])
        = Inr (tokenExchangeEvents token h t0 t1))
   \<and> (toLowerCase (txFrom t0) \<noteq> userAddress \<longrightarrow>
      feedGroupEvents ext api userAddress (h, [t0, t1])
        = map_sum id (\<lambda>ev. [ev]) (feedExchangeEvent api h t1 t0)
      \<and> tokenGroupEvents ext api userAddress token (h, [t0, t1])
        = Inr (tokenExchangeEvents token h t1 t0))"
  by (simp add: feedGroupEvents_def tokenGroupEvents_def exchangeLegs_def)

text \<open>
  Two instances: the first row sent by the viewer \<open>0xaa\<close>, and the second row sent by
  the viewer.
\<close>

theorem exchange_legs_by_first_row_witness:
  "feedGroupEvents sampleExternals sampleApi ''0xaa''
      (''h1'', [sampleRow ''h1'' ''0xAA'' ''0xcc'' ''0xc0'' ''cUSD'' 5 50,
                sampleRow ''h1'' ''0xcc'' ''0xaa'' ''0xc1'' ''cGLD'' 9 50])
     = Inr [\<lparr>type = EXCHANGE, timestamp = 50, block = 7,
             payload = ExchangeValues ''cUSD'' (roundToDouble (5 / 10 ^ 18)) ''cGLD'' (roundToDouble (9 / 10 ^ 18)),
             hash = ''h1''\<rparr>]
   \<and> feedGroupEvents sampleExternals sampleApi ''0xaa''
      (''h1'', [sampleRow ''h1'' ''0xcc'' ''0xaa'' ''0xc1'' ''cGLD'' 9 50,
                sampleRow ''h1'' ''0xAA'' ''0xcc'' ''0xc0'' ''cUSD'' 5 51])
     = Inr [\<lparr>type = EXCHANGE, timestamp = 51, block = 7,
             payload = ExchangeValues ''cUSD'' (roundToDouble (5 / 10 ^ 18)) ''cGLD'' (roundToDouble (9 / 10 ^ 18)),
             hash = ''h1''\<rparr>]"
  using exchange_legs_by_first_row
          [of "sampleRow ''h1'' ''0xAA'' ''0xcc'' ''0xc0'' ''cUSD'' 5 50" "''0xaa''"
              sampleExternals sampleApi "''h1''"
              "sampleRow ''h1'' ''0xcc'' ''0xaa'' ''0xc1'' ''cGLD'' 9 50" "''cUSD''"]
        exchange_legs_by_first_row
          [of "sampleRow ''h1'' ''0xcc'' ''0xaa'' ''0xc1'' ''cGLD'' 9 50" "''0xaa''"
              sampleExternals sampleApi "''h1''"
              "sampleRow ''h1'' ''0xAA'' ''0xcc'' ''0xc0'' ''cUSD'' 5 51" "''cUSD''"]
  by (simp add: sampleRow_sel lower_samples sample_feed_exchange)

text \<open>
  Neither row is sent by the viewer \<open>0xaa\<close>: the in leg is the second row, whose
  symbol, value and time stamp the exchange carries, and not the first.
\<close>

theorem neither_row_from_viewer_in_leg_is_second:
  "toLowerCase (txFrom (sampleRow ''h1'' ''0xbb'' ''0xcc'' ''0xc0'' ''cUSD'' 5 50)) \<noteq> ''0xaa''
   \<and> toLowerCase (txFrom (sampleRow ''h1'' ''0xcc'' ''0xbb'' ''0xc1'' ''cGLD'' 9 51)) \<noteq> ''0xaa''
   \<and> exchangeLegs ''0xaa''
        (sampleRow ''h1'' ''0xbb'' ''0xcc'' ''0xc0'' ''cUSD'' 5 50)
        (sampleRow ''h1'' ''0xcc'' ''0xbb'' ''0xc1'' ''cGLD'' 9 51)
      = (sampleRow ''h1'' ''0xcc'' ''0xbb'' ''0xc1'' ''cGLD'' 9 51,
         sampleRow ''h1'' ''0xbb'' ''0xcc'' ''0xc0'' ''cUSD'' 5 50)
   \<and> exchangeLegs ''0xaa''
        (sampleRow ''h1'' ''0xbb'' ''0xcc'' ''0xc0'' ''cUSD'' 5 50)
        (sampleRow ''h1'' ''0xcc'' ''0xbb'' ''0xc1'' ''cGLD'' 9 51)
      \<noteq> (sampleRow ''h1'' ''0xbb'' ''0xcc'' ''0xc0'' ''cUSD'' 5 50,
         sampleRow ''h1'' ''0xcc'' ''0xbb'' ''0xc1'' ''cGLD'' 9 51)
   \<and> fst (getFeedEvents sampleExternals sampleAddresses
        [sampleRow ''h1'' ''0xbb'' ''0xcc'' ''0xc0'' ''cUSD'' 5 50,
         sampleRow ''h1'' ''0xcc'' ''0xbb'' ''0xc1'' ''cGLD'' 9 51] ''0xaa'' sampleApi)
      = Inr [\<lparr>type = EXCHANGE, timestamp = 51, block = 7,
              payload = ExchangeValues ''cGLD'' (roundToDouble (9 / 10 ^ 18)) ''cUSD'' (roundToDouble (5 / 10 ^ 18)),
              hash = ''h1''\<rparr>]"
  by (simp add: getFeedEvents_def ensure_sample feedEventsPushed_def groupByHash_one_hash
        feedGroupEvents_def exchangeLegs_def sampleRow_sel sampleRow_eq lower_samples
        sample_feed_exchange sortBy_single Let_def)

text \<open>
  C3. In \<open>getTokenTransactions\<close>, for a group (not of two rows) of which exactly three
  rows \<open>x\<close>, \<open>y\<close>, \<open>z\<close> pass the stable-token filter: a row is selected and
  classified; when some two of the three values sum to the gas cost (\<open>gasUsed\<close> times
  \<open>gasPrice\<close>, read from the row of highest value, as the code does; the rows of one
  transaction share it), the selected row is the one left out of such a pair; when no
  two do, the selected row is one of highest value.
\<close>

theorem fee_currency_transfer_selected:
  assumes "length txs \<noteq> 2" and "filter (isStableTransfer api) txs = [x, y, z]"
  shows "\<exists>event.
      selectTransfer (stableTokenTxs api txs) = Some event
    \<and> tokenGroupEvents ext api userAddress token (h, txs)
        = map_sum id (\<lambda>ev. [ev]) (tokenTransferEvent ext api userAddress h event)
    \<and> (let tx0 = hd (stableTokenTxs api txs);
            gasValue = BigNumber (gasUsed tx0) * BigNumber (gasPrice tx0);
            vx = BigNumber (txValue x); vy = BigNumber (txValue y); vz = BigNumber (txValue z) in
        if vx + vy = gasValue \<or> vx + vz = gasValue \<or> vy + vz = gasValue
        then (event = z \<and> vx + vy = gasValue) \<or> (event = y \<and> vx + vz = gasValue)
               \<or> (event = x \<and> vy + vz = gasValue)
        else (event = x \<or> event = y \<or> event = z)
               \<and> vx \<le> BigNumber (txValue event) \<and> vy \<le> BigNumber (txValue event)
               \<and> vz \<le> BigNumber (txValue event))"
proof -
  let ?s = "stableTokenTxs api txs"
  have s: "?s = insertBy byValueDesc x (insertBy byValueDesc y [z])"
    by (simp add: stableTokenTxs_def assms(2) sortBy_def)
  obtain event where ev: "selectTransfer ?s = Some event"
    using selectTransfer_None [of ?s] length_stableTokenTxs [of api txs] assms(2) by fastforce
  have grp: "tokenGroupEvents ext api userAddress token (h, txs)
        = map_sum id (\<lambda>ev. [ev]) (tokenTransferEvent ext api userAddress h event)"
    using assms(1) ev by (simp add: tokenGroupEvents_def)
  have sel: "(let tx0 = hd ?s;
            gasValue = BigNumber (gasUsed tx0) * BigNumber (gasPrice tx0);
            vx = BigNumber (txValue x); vy = BigNumber (txValue y); vz = BigNumber (txValue z) in
        if vx + vy = gasValue \<or> vx + vz = gasValue \<or> vy + vz = gasValue
        then (event = z \<and> vx + vy = gasValue) \<or> (event = y \<and> vx + vz = gasValue)
               \<or> (event = x \<and> vy + vz = gasValue)
        else (event = x \<or> event = y \<or> event = z)
               \<and> vx \<le> BigNumber (txValue event) \<and> vy \<le> BigNumber (txValue event)
               \<and> vz \<le> BigNumber (txValue event))"
    using ev unfolding s
    by (auto simp: byValueDesc_def Let_def split: if_splits)
  from ev grp sel show ?thesis by blast
qed

text \<open>
  An instance, the constructed triple of the specification: the gas cost is 6, the rows
  of values 4 and 2 are the fee, and the row of value 10 is selected.
\<close>

theorem fee_currency_transfer_selected_witness:
  "selectTransfer (stableTokenTxs sampleApi
       [sampleRow ''h1'' ''0xaa'' ''0xfc'' ''0xc0'' ''cUSD'' 4 50,
        sampleRow ''h1'' ''0xaa'' ''0xfd'' ''0xc0'' ''cUSD'' 2 50,
        sampleRow ''h1'' ''0xaa'' ''0xbb'' ''0xc0'' ''cUSD'' 10 50])
     = Some (sampleRow ''h1'' ''0xaa'' ''0xbb'' ''0xc0'' ''cUSD'' 10 50)
   \<and> tokenGroupEvents sampleExternals sampleApi ''0xaa'' ''cUSD''
       (''h1'', [sampleRow ''h1'' ''0xaa'' ''0xfc'' ''0xc0'' ''cUSD'' 4 50,
                 sampleRow ''h1'' ''0xaa'' ''0xfd'' ''0xc0'' ''cUSD'' 2 50,
                 sampleRow ''h1'' ''0xaa'' ''0xbb'' ''0xc0'' ''cUSD'' 10 50])
     = Inr [\<lparr>type = SENT, timestamp = 50000, block = NumStr 7,
             payload = TransferAmount
               \<lparr>amountValue = - 10 / 10 ^ 18, currencyCode = ''cUSD'', amountTimestamp = 50000\<rparr>
               ''0xbb'' [],
             hash = ''h1''\<rparr>]"
proof -
  let ?a = "sampleRow ''h1'' ''0xaa'' ''0xfc'' ''0xc0'' ''cUSD'' 4 50"
  let ?b = "sampleRow ''h1'' ''0xaa'' ''0xfd'' ''0xc0'' ''cUSD'' 2 50"
  let ?c = "sampleRow ''h1'' ''0xaa'' ''0xbb'' ''0xc0'' ''cUSD'' 10 50"
  have len: "length [?a, ?b, ?c] \<noteq> 2" by simp
  have flt: "filter (isStableTransfer sampleApi) [?a, ?b, ?c] = [?a, ?b, ?c]"
    by (simp add: sample_stable)
  have srt: "stableTokenTxs sampleApi [?a, ?b, ?c] = [?c, ?a, ?b]"
    by (simp add: stableTokenTxs_def sample_stable sortBy_def byValueDesc_def sampleRow_sel)
  from fee_currency_transfer_selected [OF len flt, of sampleExternals "''0xaa''" "''cUSD''" "''h1''"]
  obtain event where
    ev: "selectTransfer (stableTokenTxs sampleApi [?a, ?b, ?c]) = Some event"
    and grp: "tokenGroupEvents sampleExternals sampleApi ''0xaa'' ''cUSD'' (''h1'', [?a, ?b, ?c])
        = map_sum id (\<lambda>ev. [ev]) (tokenTransferEvent sampleExternals sampleApi ''0xaa'' ''h1'' event)"
    and sel: "let tx0 = hd (stableTokenTxs sampleApi [?a, ?b, ?c]);
            gasValue = BigNumber (gasUsed tx0) * BigNumber (gasPrice tx0);
            vx = BigNumber (txValue ?a); vy = BigNumber (txValue ?b); vz = BigNumber (txValue ?c) in
        if vx + vy = gasValue \<or> vx + vz = gasValue \<or> vy + vz = gasValue
        then (event = ?c \<and> vx + vy = gasValue) \<or> (event = ?b \<and> vx + vz = gasValue)
               \<or> (event = ?a \<and> vy + vz = gasValue)
        else (event = ?a \<or> event = ?b \<or> event = ?c)
               \<and> vx \<le> BigNumber (txValue event) \<and> vy \<le> BigNumber (txValue event)
               \<and> vz \<le> BigNumber (txValue event)"
    by blast
  from sel have "event = ?c"
    by (simp add: srt sampleRow_sel Let_def)
  with ev grp show ?thesis
    by (simp add: sample_token_transfer)
qed

text \<open>
  C6. Once the registry is populated, that is, the mapping is defined and the four
  addresses are defined and not empty (the test the code makes), a call of
  \<open>ensureTokenAddresses\<close> makes no call of \<^verbatim>\<open>getContractAddresses\<close> and leaves every
  field as it is.
\<close>

theorem ensureTokenAddresses_populated_noop:
  "tokenAddressMapping api \<noteq> None \<Longrightarrow> truthy (attestationsAddress api)
   \<Longrightarrow> truthy (escrowAddress api) \<Longrightarrow> truthy (goldTokenAddress api)
   \<Longrightarrow> truthy (stableTokenAddress api)
   \<Longrightarrow> ensureTokenAddresses resolved api = (api, 0)"
  by (simp add: ensureTokenAddresses_def)

text \<open>
  An instance: the first call on a fresh instance makes one request, the second call,
  on the instance the first one leaves, makes none and changes nothing.
\<close>

theorem ensureTokenAddresses_populated_noop_witness:
  "ensureTokenAddresses sampleAddresses
     \<lparr> tokenAddressMapping = None, attestationsAddress = None, escrowAddress = None,
       goldTokenAddress = None, stableTokenAddress = None \<rparr> = (sampleApi, 1)
   \<and> ensureTokenAddresses sampleAddresses sampleApi = (sampleApi, 0)"
  using ensureTokenAddresses_populated_noop [of sampleApi sampleAddresses]
  by (simp add: sampleApi_def sampleAddresses_def ensureTokenAddresses_def)





text \<open>
  C10. In \<open>getTokenTransactions\<close>, a group whose size is not 2 emits an event only if
  exactly 1 or exactly 3 of its rows pass the filter (contract address equal to the
  stable-token address, value not \<open>0\<close>); a single row that does not pass it yields no
  event, also when its symbol is the requested token, for the group and for the whole
  call.
\<close>

theorem token_variant_filter_gate:
  assumes "length txs \<noteq> 2"
  shows "(tokenGroupEvents ext api userAddress token (h, txs) = Inr evs \<and> evs \<noteq> []
           \<longrightarrow> length (filter (isStableTransfer api) txs) = 1
               \<or> length (filter (isStableTransfer api) txs) = 3)
       \<and> (\<not> isStableTransfer api tx \<longrightarrow>
             tokenGroupEvents ext api userAddress (tokenSymbol tx) (txHash tx, [tx]) = Inr [])
       \<and> (\<not> isStableTransfer (fst (ensureTokenAddresses resolved api)) tx \<longrightarrow>
             fst (getTokenTransactions ext resolved [tx] argsAddress (tokenSymbol tx) api) = Inr [])"
proof -
  have sel: "selectTransfer (stableTokenTxs api' [tx]) = None" if "\<not> isStableTransfer api' tx" for api'
    using that by (simp add: stableTokenTxs_def sortBy_def)
  have one: "tokenGroupEvents ext api' u (tokenSymbol tx) (txHash tx, [tx]) = Inr []"
    if "\<not> isStableTransfer api' tx" for api' u
    using sel [OF that] by (simp add: tokenGroupEvents_def)
  have a: "length (filter (isStableTransfer api) txs) = 1 \<or> length (filter (isStableTransfer api) txs) = 3"
    if "tokenGroupEvents ext api userAddress token (h, txs) = Inr evs" and "evs \<noteq> []"
  proof (cases "selectTransfer (stableTokenTxs api txs)")
    case None
    with assms that show ?thesis by (simp add: tokenGroupEvents_def)
  next
    case (Some event)
    then show ?thesis
      using selectTransfer_None [of "stableTokenTxs api txs"]
      by (simp add: length_stableTokenTxs)
  qed
  have c: "fst (getTokenTransactions ext resolved [tx] argsAddress (tokenSymbol tx) api) = Inr []"
    if "\<not> isStableTransfer (fst (ensureTokenAddresses resolved api)) tx"
    using one [OF that]
    by (simp add: getTokenTransactions_def tokenEventsPushed_def groupByHash_def Let_def sortBy_def)
  from a one c show ?thesis by blast
qed

text \<open>
  An instance: a lone gold-token transfer with the gold token requested gives no event;
  a lone stable-token transfer gives one, with one row passing the filter.
\<close>

theorem token_variant_filter_gate_witness:
  "tokenGroupEvents sampleExternals sampleApi ''0xaa'' ''cGLD''
      (''h1'', [sampleRow ''h1'' ''0xaa'' ''0xbb'' ''0xc1'' ''cGLD'' 5 50]) = Inr []
   \<and> fst (getTokenTransactions sampleExternals sampleAddresses
             [sampleRow ''h1'' ''0xaa'' ''0xbb'' ''0xc1'' ''cGLD'' 5 50] ''0xaa'' ''cGLD'' sampleApi)
       = Inr []
   \<and> tokenGroupEvents sampleExternals sampleApi ''0xaa'' ''cUSD''
      (''h2'', [sampleRow ''h2'' ''0xaa'' ''0xbb'' ''0xc0'' ''cUSD'' 5 50])
       = Inr [\<lparr>type = SENT, timestamp = 50000, block = NumStr 7,
               payload = TransferAmount
                 \<lparr>amountValue = - 5 / 10 ^ 18, currencyCode = ''cUSD'', amountTimestamp = 50000\<rparr>
                 ''0xbb'' [],
               hash = ''h2''\<rparr>]
   \<and> length (filter (isStableTransfer sampleApi)
        [sampleRow ''h2'' ''0xaa'' ''0xbb'' ''0xc0'' ''cUSD'' 5 50]) = 1"
proof -
  let ?gold = "sampleRow ''h1'' ''0xaa'' ''0xbb'' ''0xc1'' ''cGLD'' 5 50"
  let ?usd = "sampleRow ''h2'' ''0xaa'' ''0xbb'' ''0xc0'' ''cUSD'' 5 50"
  let ?ev = "\<lparr>type = SENT, timestamp = 50000, block = NumStr 7,
               payload = TransferAmount
                 \<lparr>amountValue = - 5 / 10 ^ 18, currencyCode = ''cUSD'', amountTimestamp = 50000\<rparr>
                 ''0xbb'' [],
               hash = ''h2''\<rparr> :: TokenEvent"
  have len: "length [?usd] \<noteq> 2" by simp
  have run: "tokenGroupEvents sampleExternals sampleApi ''0xaa'' ''cUSD'' (''h2'', [?usd]) = Inr [?ev]"
    by (simp add: tokenGroupEvents_def stableTokenTxs_def sample_stable sortBy_single
          sample_token_transfer)
  have gold: "\<not> isStableTransfer sampleApi ?gold"
    by (simp add: sample_stable)
  have gold': "\<not> isStableTransfer (fst (ensureTokenAddresses sampleAddresses sampleApi)) ?gold"
    by (simp add: ensure_sample sample_stable)
  show ?thesis
    using token_variant_filter_gate
            [OF len, of sampleExternals sampleApi "''0xaa''" "''cUSD''" "''h2''" "[?ev]"
               ?gold sampleAddresses "''0xaa''"]
          run gold gold'
    by (simp add: sampleRow_sel ensure_sample sample_stable)
qed

subsection \<open>The final sort\<close>

lemma filter_insertBy_key:
  fixes k :: "'a \<Rightarrow> nat"
  assumes "\<And>a b. (cmp a b \<le> 0) = (k b \<le> k a)"
  shows "filter (\<lambda>e. k e = t) (insertBy cmp x ys)
           = (if k x = t then x # filter (\<lambda>e. k e = t) ys else filter (\<lambda>e. k e = t) ys)"
  by (induction ys) (auto simp: assms)

lemma filter_sortBy_key:
  fixes k :: "'a \<Rightarrow> nat"
  assumes "\<And>a b. (cmp a b \<le> 0) = (k b \<le> k a)"
  shows "filter (\<lambda>e. k e = t) (sortBy cmp xs) = filter (\<lambda>e. k e = t) xs"
proof (induction xs)
  case Nil
  show ?case by (simp add: sortBy_def)
next
  case (Cons x xs)
  have "sortBy cmp (x # xs) = insertBy cmp x (sortBy cmp xs)"
    by (simp add: sortBy_def)
  then show ?case
    using Cons.IH by (simp add: filter_insertBy_key [of cmp k, OF assms])
qed

lemma sorted_insertBy_key:
  fixes k :: "'a \<Rightarrow> nat"
  assumes "\<And>a b. (cmp a b \<le> 0) = (k b \<le> k a)"
      and "sorted_wrt (\<lambda>a b. k b \<le> k a) ys"
  shows "sorted_wrt (\<lambda>a b. k b \<le> k a) (insertBy cmp x ys)"
  using assms(2)
proof (induction ys)
  case Nil
  show ?case by simp
next
  case (Cons y ys)
  show ?case
  proof (cases "cmp x y \<le> 0")
    case True
    then have "k y \<le> k x" by (simp add: assms(1))
    with Cons.prems True show ?thesis by auto
  next
    case False
    then have "k x \<le> k y" using assms(1) [of x y] by simp
    with Cons False show ?thesis by (auto simp: set_insertBy)
  qed
qed

lemma sorted_sortBy_key:
  fixes k :: "'a \<Rightarrow> nat"
  assumes "\<And>a b. (cmp a b \<le> 0) = (k b \<le> k a)"
  shows "sorted_wrt (\<lambda>a b. k b \<le> k a) (sortBy cmp xs)"
proof (induction xs)
  case Nil
  show ?case by (simp add: sortBy_def)
next
  case (Cons x xs)
  have "sortBy cmp (x # xs) = insertBy cmp x (sortBy cmp xs)"
    by (simp add: sortBy_def)
  then show ?case
    using sorted_insertBy_key [of cmp k, OF assms Cons.IH] by simp
qed

lemma byTimestampDesc_key: "(byTimestampDesc a b \<le> 0) = (timestamp b \<le> timestamp a)"
  by (simp add: byTimestampDesc_def)

lemma sortBy_timestamp:
  "sorted_wrt (\<lambda>a b. timestamp b \<le> timestamp a) (sortBy byTimestampDesc xs)"
  "filter (\<lambda>e. timestamp e = t) (sortBy byTimestampDesc xs) = filter (\<lambda>e. timestamp e = t) xs"
  using sorted_sortBy_key [of byTimestampDesc timestamp xs]
        filter_sortBy_key [of byTimestampDesc timestamp t xs]
  by (simp_all add: byTimestampDesc_key)

lemma forEachGroup_order:
  "forEachGroup f gs = Inr evs \<Longrightarrow> evs = concat (map (\<lambda>g. projr (f g)) gs)"
  by (induction gs arbitrary: evs) (auto split: sum.splits)

lemma rewardsPushed_order:
  "rewardsPushed ext api ts = Inr evs \<Longrightarrow>
     map hash evs = map txHash (filter (\<lambda>t. toLowerCase (txFrom t) = VERIFICATION_REWARDS_ADDRESS ext) ts)"
  by (induction ts arbitrary: evs) (auto split: sum.splits if_splits)

text \<open>
  C5. Each of \<open>getFeedEvents\<close>, \<open>getFeedRewards\<close> and \<open>getTokenTransactions\<close>
  returns its events in descending order of time stamp, and the events of any one time
  stamp in the order in which they were pushed: that of the groups in the map for the
  first and the last (after the filter on the requested token), that of the rows for
  the rewards. The sort is the stable one of ECMAScript 2019.
\<close>

theorem feeds_sorted_descending_stable:
  "(fst (getFeedEvents ext resolved raws argsAddress api) = Inr evs \<longrightarrow>
      sorted_wrt (\<lambda>a b. timestamp b \<le> timestamp a) evs
    \<and> (\<exists>pushed.
          feedEventsPushed ext (fst (ensureTokenAddresses resolved api)) (toLowerCase argsAddress) raws
            = Inr pushed
        \<and> pushed = concat (map (\<lambda>g. projr (feedGroupEvents ext
                       (fst (ensureTokenAddresses resolved api)) (toLowerCase argsAddress) g))
                     (groupByHash raws))
        \<and> (\<forall>t. filter (\<lambda>e. timestamp e = t) evs = filter (\<lambda>e. timestamp e = t) pushed)))
   \<and> (fst (getFeedRewards ext resolved raws api) = Inr rewards \<longrightarrow>
      sorted_wrt (\<lambda>a b. timestamp b \<le> timestamp a) rewards
    \<and> (\<exists>pushed.
          rewardsPushed ext (fst (ensureTokenAddresses resolved api)) raws = Inr pushed
        \<and> map hash pushed
            = map txHash (filter (\<lambda>t. toLowerCase (txFrom t) = VERIFICATION_REWARDS_ADDRESS ext) raws)
        \<and> (\<forall>t. filter (\<lambda>e. timestamp e = t) rewards = filter (\<lambda>e. timestamp e = t) pushed)))
   \<and> (fst (getTokenTransactions ext resolved raws argsAddress token api) = Inr tevs \<longrightarrow>
      sorted_wrt (\<lambda>a b. timestamp b \<le> timestamp a) tevs
    \<and> (\<exists>pushed.
          tokenEventsPushed ext (fst (ensureTokenAddresses resolved api)) (toLowerCase argsAddress)
            token raws = Inr pushed
        \<and> pushed = concat (map (\<lambda>g. projr (tokenGroupEvents ext
                       (fst (ensureTokenAddresses resolved api)) (toLowerCase argsAddress) token g))
                     (groupByHash raws))
        \<and> (\<forall>t. filter (\<lambda>e. timestamp e = t) tevs
                = filter (\<lambda>e. timestamp e = t)
                    (filter (\<lambda>event. currencyCode (amount (payload event)) = token) pushed))))"
proof -
  have feed: "sorted_wrt (\<lambda>a b. timestamp b \<le> timestamp a) evs
    \<and> (\<exists>pushed.
          feedEventsPushed ext (fst (ensureTokenAddresses resolved api)) (toLowerCase argsAddress) raws
            = Inr pushed
        \<and> pushed = concat (map (\<lambda>g. projr (feedGroupEvents ext
                       (fst (ensureTokenAddresses resolved api)) (toLowerCase argsAddress) g))
                     (groupByHash raws))
        \<and> (\<forall>t. filter (\<lambda>e. timestamp e = t) evs = filter (\<lambda>e. timestamp e = t) pushed))"
    if "fst (getFeedEvents ext resolved raws argsAddress api) = Inr evs"
  proof -
    from that obtain pushed where
      p: "feedEventsPushed ext (fst (ensureTokenAddresses resolved api)) (toLowerCase argsAddress) raws
            = Inr pushed"
      and e: "evs = sortBy byTimestampDesc pushed"
      by (cases "feedEventsPushed ext (fst (ensureTokenAddresses resolved api))
                   (toLowerCase argsAddress) raws")
         (auto simp: getFeedEvents_def Let_def)
    from p have "pushed = concat (map (\<lambda>g. projr (feedGroupEvents ext
                       (fst (ensureTokenAddresses resolved api)) (toLowerCase argsAddress) g))
                     (groupByHash raws))"
      unfolding feedEventsPushed_def by (rule forEachGroup_order)
    with p e show ?thesis by (simp add: sortBy_timestamp)
  qed
  have rew: "sorted_wrt (\<lambda>a b. timestamp b \<le> timestamp a) rewards
    \<and> (\<exists>pushed.
          rewardsPushed ext (fst (ensureTokenAddresses resolved api)) raws = Inr pushed
        \<and> map hash pushed
            = map txHash (filter (\<lambda>t. toLowerCase (txFrom t) = VERIFICATION_REWARDS_ADDRESS ext) raws)
        \<and> (\<forall>t. filter (\<lambda>e. timestamp e = t) rewards = filter (\<lambda>e. timestamp e = t) pushed))"
    if "fst (getFeedRewards ext resolved raws api) = Inr rewards"
  proof -
    from that obtain pushed where
      p: "rewardsPushed ext (fst (ensureTokenAddresses resolved api)) raws = Inr pushed"
      and e: "rewards = sortBy byTimestampDesc pushed"
      by (cases "rewardsPushed ext (fst (ensureTokenAddresses resolved api)) raws")
         (auto simp: getFeedRewards_def Let_def)
    from p e rewardsPushed_order [OF p] show ?thesis by (simp add: sortBy_timestamp)
  qed
  have tok: "sorted_wrt (\<lambda>a b. timestamp b \<le> timestamp a) tevs
    \<and> (\<exists>pushed.
          tokenEventsPushed ext (fst (ensureTokenAddresses resolved api)) (toLowerCase argsAddress)
            token raws = Inr pushed
        \<and> pushed = concat (map (\<lambda>g. projr (tokenGroupEvents ext
                       (fst (ensureTokenAddresses resolved api)) (toLowerCase argsAddress) token g))
                     (groupByHash raws))
        \<and> (\<forall>t. filter (\<lambda>e. timestamp e = t) tevs
                = filter (\<lambda>e. timestamp e = t)
                    (filter (\<lambda>event. currencyCode (amount (payload event)) = token) pushed)))"
    if "fst (getTokenTransactions ext resolved raws argsAddress token api) = Inr tevs"
  proof -
    from that obtain pushed where
      p: "tokenEventsPushed ext (fst (ensureTokenAddresses resolved api)) (toLowerCase argsAddress)
            token raws = Inr pushed"
      and e: "tevs = sortBy byTimestampDesc
                (filter (\<lambda>event. currencyCode (amount (payload event)) = token) pushed)"
      by (cases "tokenEventsPushed ext (fst (ensureTokenAddresses resolved api))
                   (toLowerCase argsAddress) token raws")
         (auto simp: getTokenTransactions_def Let_def)
    from p have "pushed = concat (map (\<lambda>g. projr (tokenGroupEvents ext
                       (fst (ensureTokenAddresses resolved api)) (toLowerCase argsAddress) token g))
                     (groupByHash raws))"
      unfolding tokenEventsPushed_def by (rule forEachGroup_order)
    with p e show ?thesis by (simp add: sortBy_timestamp)
  qed
  from feed rew tok show ?thesis by blast
qed

lemma sample_groups3:
  "groupByHash [sampleRow ''h1'' f0 t0 c0 s0 v0 ts0, sampleRow ''h2'' f1 t1 c1 s1 v1 ts1,
                sampleRow ''h3'' f2 t2 c2 s2 v2 ts2]
   = [(''h1'', [sampleRow ''h1'' f0 t0 c0 s0 v0 ts0]), (''h2'', [sampleRow ''h2'' f1 t1 c1 s1 v1 ts1]),
      (''h3'', [sampleRow ''h3'' f2 t2 c2 s2 v2 ts2])]"
  by (simp add: groupByHash_def sampleRow_sel)

lemma sample_feed_run:
  "fst (getFeedEvents sampleExternals sampleAddresses sampleTransfers ''0xAA'' sampleApi)
   = Inr [\<lparr>type = SENT, timestamp = 60, block = 7,
            payload = TransferValues (roundToDouble (6 / 10 ^ 18)) ''0xbb'' [] ''cUSD'', hash = ''h2''\<rparr>,
          \<lparr>type = SENT, timestamp = 50, block = 7,
            payload = TransferValues (roundToDouble (5 / 10 ^ 18)) ''0xbb'' [] ''cUSD'', hash = ''h1''\<rparr>,
          \<lparr>type = SENT, timestamp = 50, block = 7,
            payload = TransferValues (roundToDouble (7 / 10 ^ 18)) ''0xbb'' [] ''cUSD'', hash = ''h3''\<rparr>]"
  by (simp add: getFeedEvents_def ensure_sample feedEventsPushed_def sampleTransfers_def
        sample_groups3 feedGroupEvents_def sample_feed_transfer lower_samples Let_def sortBy_def
        byTimestampDesc_def)

lemma sample_token_run:
  "fst (getTokenTransactions sampleExternals sampleAddresses sampleTransfers ''0xAA'' ''cUSD''
          sampleApi)
   = Inr [\<lparr>type = SENT, timestamp = 60000, block = NumStr 7,
            payload = TransferAmount
              \<lparr>amountValue = - 6 / 10 ^ 18, currencyCode = ''cUSD'', amountTimestamp = 60000\<rparr>
              ''0xbb'' [], hash = ''h2''\<rparr>,
          \<lparr>type = SENT, timestamp = 50000, block = NumStr 7,
            payload = TransferAmount
              \<lparr>amountValue = - 5 / 10 ^ 18, currencyCode = ''cUSD'', amountTimestamp = 50000\<rparr>
              ''0xbb'' [], hash = ''h1''\<rparr>,
          \<lparr>type = SENT, timestamp = 50000, block = NumStr 7,
            payload = TransferAmount
              \<lparr>amountValue = - 7 / 10 ^ 18, currencyCode = ''cUSD'', amountTimestamp = 50000\<rparr>
              ''0xbb'' [], hash = ''h3''\<rparr>]"
  by (simp add: getTokenTransactions_def ensure_sample tokenEventsPushed_def sampleTransfers_def
        sample_groups3 tokenGroupEvents_def stableTokenTxs_def sample_stable sortBy_single
        sample_token_transfer lower_samples Let_def sortBy_def byTimestampDesc_def)

lemma sample_rewards_run:
  "fst (getFeedRewards sampleExternals sampleAddresses sampleRewardRows sampleApi)
   = Inr [\<lparr>type = VERIFICATION_REWARD, timestamp = 60, block = 7,
            payload = TransferValues (roundToDouble (6 / 10 ^ 18)) ''0xfe'' [] ''cUSD'', hash = ''h2''\<rparr>,
          \<lparr>type = VERIFICATION_REWARD, timestamp = 50, block = 7,
            payload = TransferValues (roundToDouble (5 / 10 ^ 18)) ''0xfe'' [] ''cUSD'', hash = ''h1''\<rparr>,
          \<lparr>type = VERIFICATION_REWARD, timestamp = 50, block = 7,
            payload = TransferValues (roundToDouble (7 / 10 ^ 18)) ''0xfe'' [] ''cUSD'', hash = ''h4''\<rparr>]"
  by (simp add: getFeedRewards_def ensure_sample sampleRewardRows_def sampleRow_sel
        lower_samples sample_registry sampleExternals_def commentOf_def WEI_PER_GOLD_def
        Let_def sortBy_def byTimestampDesc_def)

text \<open>
  An instance: of two events at time 50 and one at time 60, the one at 60 comes first
  and the two at 50 keep their order.
\<close>

theorem feeds_sorted_descending_stable_witness:
  "fst (getFeedEvents sampleExternals sampleAddresses sampleTransfers ''0xAA'' sampleApi)
     = Inr [\<lparr>type = SENT, timestamp = 60, block = 7,
            payload = TransferValues (roundToDouble (6 / 10 ^ 18)) ''0xbb'' [] ''cUSD'', hash = ''h2''\<rparr>,
          \<lparr>type = SENT, timestamp = 50, block = 7,
            payload = TransferValues (roundToDouble (5 / 10 ^ 18)) ''0xbb'' [] ''cUSD'', hash = ''h1''\<rparr>,
          \<lparr>type = SENT, timestamp = 50, block = 7,
            payload = TransferValues (roundToDouble (7 / 10 ^ 18)) ''0xbb'' [] ''cUSD'', hash = ''h3''\<rparr>]
   \<and> sorted_wrt (\<lambda>a b. timestamp b \<le> timestamp a)
        (projr (fst (getFeedEvents sampleExternals sampleAddresses sampleTransfers ''0xAA''
                       sampleApi)))
   \<and> fst (getFeedRewards sampleExternals sampleAddresses sampleRewardRows sampleApi)
     = Inr [\<lparr>type = VERIFICATION_REWARD, timestamp = 60, block = 7,
            payload = TransferValues (roundToDouble (6 / 10 ^ 18)) ''0xfe'' [] ''cUSD'', hash = ''h2''\<rparr>,
          \<lparr>type = VERIFICATION_REWARD, timestamp = 50, block = 7,
            payload = TransferValues (roundToDouble (5 / 10 ^ 18)) ''0xfe'' [] ''cUSD'', hash = ''h1''\<rparr>,
          \<lparr>type = VERIFICATION_REWARD, timestamp = 50, block = 7,
            payload = TransferValues (roundToDouble (7 / 10 ^ 18)) ''0xfe'' [] ''cUSD'', hash = ''h4''\<rparr>]
   \<and> sorted_wrt (\<lambda>a b. timestamp b \<le> timestamp a)
        (projr (fst (getFeedRewards sampleExternals sampleAddresses sampleRewardRows sampleApi)))
   \<and> map hash (projr (fst (getTokenTransactions sampleExternals sampleAddresses sampleTransfers
                              ''0xAA'' ''cUSD'' sampleApi)))
       = [''h2'', ''h1'', ''h3'']
   \<and> sorted_wrt (\<lambda>a b. timestamp b \<le> timestamp a)
        (projr (fst (getTokenTransactions sampleExternals sampleAddresses sampleTransfers
                       ''0xAA'' ''cUSD'' sampleApi)))"
proof -
  note inst = feeds_sorted_descending_stable
      [where ext = sampleExternals and resolved = sampleAddresses and api = sampleApi
         and argsAddress = "''0xAA''" and token = "''cUSD''"]
  have f: "sorted_wrt (\<lambda>a b. timestamp b \<le> timestamp a)
        (projr (fst (getFeedEvents sampleExternals sampleAddresses sampleTransfers ''0xAA''
                       sampleApi)))"
    using inst [where raws = sampleTransfers, THEN conjunct1, THEN mp, OF sample_feed_run]
    unfolding sample_feed_run by simp
  have r: "sorted_wrt (\<lambda>a b. timestamp b \<le> timestamp a)
        (projr (fst (getFeedRewards sampleExternals sampleAddresses sampleRewardRows sampleApi)))"
    using inst [where raws = sampleRewardRows, THEN conjunct2, THEN conjunct1, THEN mp,
                OF sample_rewards_run]
    unfolding sample_rewards_run by simp
  have t: "sorted_wrt (\<lambda>a b. timestamp b \<le> timestamp a)
        (projr (fst (getTokenTransactions sampleExternals sampleAddresses sampleTransfers
                       ''0xAA'' ''cUSD'' sampleApi)))"
    using inst [where raws = sampleTransfers, THEN conjunct2, THEN conjunct2, THEN mp,
                OF sample_token_run]
    unfolding sample_token_run by simp
  have h: "map hash (projr (fst (getTokenTransactions sampleExternals sampleAddresses
             sampleTransfers ''0xAA'' ''cUSD'' sampleApi))) = [''h2'', ''h1'', ''h3'']"
    unfolding sample_token_run by simp
  from sample_feed_run f sample_rewards_run r h t show ?thesis
    by (intro conjI)
qed

subsection \<open>From an event back to its row\<close>

lemma pushTx_rows:
  assumes "\<forall>(h', txs') \<in> set m. \<forall>t\<in>set txs'. t \<in> S \<and> txHash t = h'"
  shows "\<forall>(h', txs') \<in> set (pushTx tx m). \<forall>t\<in>set txs'. t \<in> insert tx S \<and> txHash t = h'"
  using assms
proof (induction m)
  case Nil
  show ?case by simp
next
  case (Cons g m)
  obtain h0 txs0 where g: "g = (h0, txs0)" by (cases g)
  from Cons.prems g have head: "\<forall>t\<in>set txs0. t \<in> S \<and> txHash t = h0"
    and rest: "\<forall>(h', txs') \<in> set m. \<forall>t\<in>set txs'. t \<in> S \<and> txHash t = h'"
    by auto
  show ?case
  proof (cases "h0 = txHash tx")
    case True
    with head rest g show ?thesis by auto
  next
    case False
    with head Cons.IH [OF rest] g show ?thesis by auto
  qed
qed

lemma foldl_pushTx_rows:
  assumes "\<forall>(h', txs') \<in> set m. \<forall>t\<in>set txs'. t \<in> S \<and> txHash t = h'"
  shows "\<forall>(h', txs') \<in> set (foldl (\<lambda>m tx. pushTx tx m) m raws).
           \<forall>t\<in>set txs'. t \<in> S \<union> set raws \<and> txHash t = h'"
  using assms
proof (induction raws arbitrary: m S)
  case Nil
  then show ?case by simp
next
  case (Cons tx raws)
  from Cons.IH [OF pushTx_rows [OF Cons.prems, of tx]]
  show ?case by simp
qed

lemma groupByHash_rows:
  "(h, txs) \<in> set (groupByHash raws) \<Longrightarrow> t \<in> set txs \<Longrightarrow> t \<in> set raws \<and> txHash t = h"
  using foldl_pushTx_rows [of "[]" "{}" raws] unfolding groupByHash_def by fastforce

lemma forEachGroup_mem:
  "forEachGroup f gs = Inr evs \<Longrightarrow> ev \<in> set evs \<Longrightarrow> \<exists>g\<in>set gs. \<exists>p. f g = Inr p \<and> ev \<in> set p"
  by (induction gs arbitrary: evs) (auto split: sum.splits)

lemma feedGroupEvents_row:
  assumes "feedGroupEvents ext api u (h, txs) = Inr p" and "ev \<in> set p"
  shows "\<exists>tx\<in>set txs. hash ev = h \<and> timestamp ev = toNumber (timeStamp tx)
           \<and> block ev = toNumber (blockNumber tx)"
proof (cases "length txs = 2")
  case True
  then obtain t0 t1 where txs: "txs = [t0, t1]"
    by (cases txs; cases "tl txs") auto
  with assms show ?thesis
    by (auto simp: feedGroupEvents_def exchangeLegs_def feedExchangeEvent_def
             split: if_splits sum.splits)
next
  case False
  with assms show ?thesis
    by (cases txs)
       (auto simp: feedGroupEvents_def feedTransferEvent_def Let_def split: sum.splits prod.splits)
qed

lemma tokenExchangeEvents_row:
  assumes "ev \<in> set (tokenExchangeEvents token h inEvent outEvent)"
  shows "hash ev = h \<and> timestamp ev = toNumber (timeStamp inEvent) * 1000
       \<and> block ev = blockNumber inEvent
       \<and> (\<forall>m\<in>set (payloadAmounts (payload ev)). amountTimestamp m = timestamp ev)"
  using assms
  by (auto simp: tokenExchangeEvents_def Let_def split: option.splits if_splits)

lemma tokenTransferEvent_row:
  assumes "tokenTransferEvent ext api u h event = Inr ev"
  shows "hash ev = h \<and> timestamp ev = toNumber (timeStamp event) * 1000
       \<and> block ev = blockNumber event
       \<and> (\<forall>m\<in>set (payloadAmounts (payload ev)). amountTimestamp m = timestamp ev)"
  using assms
  by (auto simp: tokenTransferEvent_def Let_def split: sum.splits prod.splits)

lemma tokenGroupEvents_row:
  assumes "tokenGroupEvents ext api u token (h, txs) = Inr p" and "ev \<in> set p"
  shows "\<exists>tx\<in>set txs. hash ev = h \<and> timestamp ev = toNumber (timeStamp tx) * 1000
           \<and> block ev = blockNumber tx
           \<and> (\<forall>m\<in>set (payloadAmounts (payload ev)). amountTimestamp m = timestamp ev)"
proof (cases "length txs = 2")
  case True
  then obtain t0 t1 where txs: "txs = [t0, t1]"
    by (cases txs; cases "tl txs") auto
  show ?thesis
  proof (cases "toLowerCase (txFrom t0) = u")
    case True
    with assms txs have "ev \<in> set (tokenExchangeEvents token h t0 t1)"
      by (auto simp: tokenGroupEvents_def exchangeLegs_def)
    from tokenExchangeEvents_row [OF this] txs show ?thesis by auto
  next
    case False
    with assms txs have "ev \<in> set (tokenExchangeEvents token h t1 t0)"
      by (auto simp: tokenGroupEvents_def exchangeLegs_def)
    from tokenExchangeEvents_row [OF this] txs show ?thesis by auto
  qed
next
  case False
  with assms obtain event where
    sel: "selectTransfer (stableTokenTxs api txs) = Some event"
    and ev: "tokenTransferEvent ext api u h event = Inr ev"
    by (auto simp: tokenGroupEvents_def split: option.splits dest!: map_sum_singleton_Inr)
  from selectTransfer_mem [OF sel] have "event \<in> set txs"
    by (simp add: stableTokenTxs_def set_sortBy)
  with tokenTransferEvent_row [OF ev] show ?thesis by blast
qed

lemma rewardsPushed_row:
  "rewardsPushed ext api ts = Inr p \<Longrightarrow> ev \<in> set p \<Longrightarrow>
     \<exists>tx\<in>set ts. hash ev = txHash tx \<and> timestamp ev = toNumber (timeStamp tx)
        \<and> block ev = toNumber (blockNumber tx)"
  by (induction ts arbitrary: p) (auto split: sum.splits if_splits)

text \<open>
  C7, as the code has it. Every event of \<open>getFeedEvents\<close> and of \<open>getFeedRewards\<close>
  carries the \<open>timeStamp\<close> of a row of its transaction as a number of seconds and the
  \<open>blockNumber\<close> of that row as a number. Every event of \<open>getTokenTransactions\<close>
  carries the \<open>timeStamp\<close> of a row of its transaction multiplied by 1000, the same
  number in each of its amounts, and the \<open>blockNumber\<close> of that row as the string it
  is.
\<close>

theorem event_timestamps_and_blocks:
  "(fst (getFeedEvents ext resolved raws argsAddress api) = Inr evs \<longrightarrow>
      (\<forall>ev\<in>set evs. \<exists>tx\<in>set raws. hash ev = txHash tx
          \<and> timestamp ev = toNumber (timeStamp tx) \<and> block ev = toNumber (blockNumber tx)))
   \<and> (fst (getFeedRewards ext resolved raws api) = Inr rewards \<longrightarrow>
      (\<forall>ev\<in>set rewards. \<exists>tx\<in>set raws. hash ev = txHash tx
          \<and> timestamp ev = toNumber (timeStamp tx) \<and> block ev = toNumber (blockNumber tx)))
   \<and> (fst (getTokenTransactions ext resolved raws argsAddress token api) = Inr tevs \<longrightarrow>
      (\<forall>ev\<in>set tevs. \<exists>tx\<in>set raws. hash ev = txHash tx
          \<and> timestamp ev = toNumber (timeStamp tx) * 1000 \<and> block ev = blockNumber tx
          \<and> (\<forall>m\<in>set (payloadAmounts (payload ev)). amountTimestamp m = timestamp ev)))"
proof -
  let ?api = "fst (ensureTokenAddresses resolved api)"
  let ?u = "toLowerCase argsAddress"
  have feed: "\<exists>tx\<in>set raws. hash ev = txHash tx
          \<and> timestamp ev = toNumber (timeStamp tx) \<and> block ev = toNumber (blockNumber tx)"
    if run: "fst (getFeedEvents ext resolved raws argsAddress api) = Inr evs" and ev: "ev \<in> set evs"
    for ev
  proof -
    from run obtain pushed where
      p: "forEachGroup (feedGroupEvents ext ?api ?u) (groupByHash raws) = Inr pushed"
      and e: "evs = sortBy byTimestampDesc pushed"
      by (cases "feedEventsPushed ext ?api ?u raws")
         (auto simp: getFeedEvents_def feedEventsPushed_def Let_def)
    from ev e have "ev \<in> set pushed" by (simp add: set_sortBy)
    from forEachGroup_mem [OF p this] obtain h txs q where
      g: "(h, txs) \<in> set (groupByHash raws)"
      and q: "feedGroupEvents ext ?api ?u (h, txs) = Inr q" "ev \<in> set q"
      by auto
    from feedGroupEvents_row [OF q] obtain tx where
      "tx \<in> set txs" "hash ev = h" "timestamp ev = toNumber (timeStamp tx)"
      "block ev = toNumber (blockNumber tx)"
      by blast
    with groupByHash_rows [OF g, of tx] show ?thesis by blast
  qed
  have rew: "\<exists>tx\<in>set raws. hash ev = txHash tx
          \<and> timestamp ev = toNumber (timeStamp tx) \<and> block ev = toNumber (blockNumber tx)"
    if run: "fst (getFeedRewards ext resolved raws api) = Inr rewards" and ev: "ev \<in> set rewards"
    for ev
  proof -
    from run obtain pushed where
      p: "rewardsPushed ext ?api raws = Inr pushed"
      and e: "rewards = sortBy byTimestampDesc pushed"
      by (cases "rewardsPushed ext ?api raws") (auto simp: getFeedRewards_def Let_def)
    from ev e have "ev \<in> set pushed" by (simp add: set_sortBy)
    from rewardsPushed_row [OF p this] show ?thesis .
  qed
  have tok: "\<exists>tx\<in>set raws. hash ev = txHash tx
          \<and> timestamp ev = toNumber (timeStamp tx) * 1000 \<and> block ev = blockNumber tx
          \<and> (\<forall>m\<in>set (payloadAmounts (payload ev)). amountTimestamp m = timestamp ev)"
    if run: "fst (getTokenTransactions ext resolved raws argsAddress token api) = Inr tevs"
      and ev: "ev \<in> set tevs"
    for ev
  proof -
    from run obtain pushed where
      p: "forEachGroup (tokenGroupEvents ext ?api ?u token) (groupByHash raws) = Inr pushed"
      and e: "tevs = sortBy byTimestampDesc
                (filter (\<lambda>event. currencyCode (amount (payload event)) = token) pushed)"
      by (cases "tokenEventsPushed ext ?api ?u token raws")
         (auto simp: getTokenTransactions_def tokenEventsPushed_def Let_def)
    from ev e have "ev \<in> set pushed" by (simp add: set_sortBy)
    from forEachGroup_mem [OF p this] obtain h txs q where
      g: "(h, txs) \<in> set (groupByHash raws)"
      and q: "tokenGroupEvents ext ?api ?u token (h, txs) = Inr q" "ev \<in> set q"
      by auto
    from tokenGroupEvents_row [OF q] obtain tx where
      "tx \<in> set txs" "hash ev = h" "timestamp ev = toNumber (timeStamp tx) * 1000"
      "block ev = blockNumber tx"
      "\<forall>m\<in>set (payloadAmounts (payload ev)). amountTimestamp m = timestamp ev"
      by blast
    with groupByHash_rows [OF g, of tx] show ?thesis by blast
  qed
  from feed rew tok show ?thesis by blast
qed

text \<open>An instance, on the sample transfers and rewards.\<close>

theorem event_timestamps_and_blocks_witness:
  "map_sum id (map (\<lambda>ev. (hash ev, timestamp ev, block ev)))
      (fst (getFeedEvents sampleExternals sampleAddresses sampleTransfers ''0xAA'' sampleApi))
     = Inr [(''h2'', 60, 7), (''h1'', 50, 7), (''h3'', 50, 7)]
   \<and> list_all (\<lambda>ev. \<exists>tx\<in>set sampleTransfers. hash ev = txHash tx
          \<and> timestamp ev = toNumber (timeStamp tx) \<and> block ev = toNumber (blockNumber tx))
        (projr (fst (getFeedEvents sampleExternals sampleAddresses sampleTransfers ''0xAA''
                       sampleApi)))
   \<and> map_sum id (map (\<lambda>ev. (hash ev, timestamp ev, block ev)))
      (fst (getFeedRewards sampleExternals sampleAddresses sampleRewardRows sampleApi))
     = Inr [(''h2'', 60, 7), (''h1'', 50, 7), (''h4'', 50, 7)]
   \<and> list_all (\<lambda>ev. \<exists>tx\<in>set sampleRewardRows. hash ev = txHash tx
          \<and> timestamp ev = toNumber (timeStamp tx) \<and> block ev = toNumber (blockNumber tx))
        (projr (fst (getFeedRewards sampleExternals sampleAddresses sampleRewardRows sampleApi)))
   \<and> map_sum id (map (\<lambda>ev. (hash ev, timestamp ev, block ev)))
      (fst (getTokenTransactions sampleExternals sampleAddresses sampleTransfers ''0xAA'' ''cUSD''
              sampleApi))
     = Inr [(''h2'', 60000, NumStr 7), (''h1'', 50000, NumStr 7), (''h3'', 50000, NumStr 7)]
   \<and> list_all (\<lambda>ev. \<exists>tx\<in>set sampleTransfers. hash ev = txHash tx
          \<and> timestamp ev = toNumber (timeStamp tx) * 1000 \<and> block ev = blockNumber tx
          \<and> list_all (\<lambda>m. amountTimestamp m = timestamp ev) (payloadAmounts (payload ev)))
        (projr (fst (getTokenTransactions sampleExternals sampleAddresses sampleTransfers
                       ''0xAA'' ''cUSD'' sampleApi)))"
proof -
  note inst = event_timestamps_and_blocks
      [where ext = sampleExternals and resolved = sampleAddresses and api = sampleApi
         and argsAddress = "''0xAA''" and token = "''cUSD''"]
  have f: "list_all (\<lambda>ev. \<exists>tx\<in>set sampleTransfers. hash ev = txHash tx
          \<and> timestamp ev = toNumber (timeStamp tx) \<and> block ev = toNumber (blockNumber tx))
        (projr (fst (getFeedEvents sampleExternals sampleAddresses sampleTransfers ''0xAA''
                       sampleApi)))"
    using inst [where raws = sampleTransfers, THEN conjunct1, THEN mp, OF sample_feed_run]
    unfolding sample_feed_run list_all_iff by simp
  have r: "list_all (\<lambda>ev. \<exists>tx\<in>set sampleRewardRows. hash ev = txHash tx
          \<and> timestamp ev = toNumber (timeStamp tx) \<and> block ev = toNumber (blockNumber tx))
        (projr (fst (getFeedRewards sampleExternals sampleAddresses sampleRewardRows sampleApi)))"
    using inst [where raws = sampleRewardRows, THEN conjunct2, THEN conjunct1, THEN mp,
                OF sample_rewards_run]
    unfolding sample_rewards_run list_all_iff by simp
  have t: "list_all (\<lambda>ev. \<exists>tx\<in>set sampleTransfers. hash ev = txHash tx
          \<and> timestamp ev = toNumber (timeStamp tx) * 1000 \<and> block ev = blockNumber tx
          \<and> list_all (\<lambda>m. amountTimestamp m = timestamp ev) (payloadAmounts (payload ev)))
        (projr (fst (getTokenTransactions sampleExternals sampleAddresses sampleTransfers
                       ''0xAA'' ''cUSD'' sampleApi)))"
    using inst [where raws = sampleTransfers, THEN conjunct2, THEN conjunct2, THEN mp,
                OF sample_token_run]
    unfolding sample_token_run list_all_iff by simp
  have vals:
    "map_sum id (map (\<lambda>ev. (hash ev, timestamp ev, block ev)))
      (fst (getFeedEvents sampleExternals sampleAddresses sampleTransfers ''0xAA'' sampleApi))
     = Inr [(''h2'', 60, 7), (''h1'', 50, 7), (''h3'', 50, 7)]"
    "map_sum id (map (\<lambda>ev. (hash ev, timestamp ev, block ev)))
      (fst (getFeedRewards sampleExternals sampleAddresses sampleRewardRows sampleApi))
     = Inr [(''h2'', 60, 7), (''h1'', 50, 7), (''h4'', 50, 7)]"
    "map_sum id (map (\<lambda>ev. (hash ev, timestamp ev, block ev)))
      (fst (getTokenTransactions sampleExternals sampleAddresses sampleTransfers ''0xAA'' ''cUSD''
              sampleApi))
     = Inr [(''h2'', 60000, NumStr 7), (''h1'', 50000, NumStr 7), (''h3'', 50000, NumStr 7)]"
    unfolding sample_feed_run sample_rewards_run sample_token_run by simp_all
  from vals f r t show ?thesis by (intro conjI)
qed

text \<open>
  On the same rows, of time stamps 50, 60 and 50, the events of \<open>getFeedEvents\<close>
  carry 50, 60 and 50 and those of \<open>getTokenTransactions\<close> carry 50000, 60000 and
  50000, in the event and in its amount.
\<close>

theorem token_variant_timestamp_not_seconds:
  "map (\<lambda>tx. (txHash tx, toNumber (timeStamp tx))) sampleTransfers
     = [(''h1'', 50), (''h2'', 60), (''h3'', 50)]
   \<and> map_sum id (map (\<lambda>ev. (hash ev, timestamp ev)))
      (fst (getFeedEvents sampleExternals sampleAddresses sampleTransfers ''0xAA'' sampleApi))
     = Inr [(''h2'', 60), (''h1'', 50), (''h3'', 50)]
   \<and> map_sum id (map (\<lambda>ev. (hash ev, timestamp ev, amountTimestamp (amount (payload ev)))))
      (fst (getTokenTransactions sampleExternals sampleAddresses sampleTransfers ''0xAA'' ''cUSD''
              sampleApi))
     = Inr [(''h2'', 60000, 60000), (''h1'', 50000, 50000), (''h3'', 50000, 50000)]"
  unfolding sample_feed_run sample_token_run
  by (simp add: sampleTransfers_def sampleRow_sel)

subsection \<open>Groups of other sizes\<close>














subsection \<open>Lower-casing the addresses of the rows changes nothing\<close>

lemma lowerChar_idem: "lowerChar (lowerChar c) = lowerChar c"
  unfolding lowerChar_def Let_def
  by (auto simp: of_char_of [where ?'a = nat])

lemma toLowerCase_idem: "toLowerCase (toLowerCase s) = toLowerCase s"
  by (simp add: toLowerCase_def lowerChar_idem)

lemma lowerCaseAddresses_sel:
  "txTo (lowerCaseAddresses tx) = toLowerCase (txTo tx)"
  "txFrom (lowerCaseAddresses tx) = toLowerCase (txFrom tx)"
  "contractAddress (lowerCaseAddresses tx) = toLowerCase (contractAddress tx)"
  "txHash (lowerCaseAddresses tx) = txHash tx"
  "txValue (lowerCaseAddresses tx) = txValue tx"
  "tokenSymbol (lowerCaseAddresses tx) = tokenSymbol tx"
  "timeStamp (lowerCaseAddresses tx) = timeStamp tx"
  "blockNumber (lowerCaseAddresses tx) = blockNumber tx"
  "txInput (lowerCaseAddresses tx) = txInput tx"
  "gasUsed (lowerCaseAddresses tx) = gasUsed tx"
  "gasPrice (lowerCaseAddresses tx) = gasPrice tx"
  by (simp_all add: lowerCaseAddresses_def)

lemma getTokenAtAddress_lower:
  "getTokenAtAddress api (toLowerCase c) = getTokenAtAddress api c"
  by (simp add: getTokenAtAddress_def toLowerCase_idem Let_def split: option.splits)

lemma pushTx_lower:
  "pushTx (lowerCaseAddresses tx) (map (\<lambda>(h, ts). (h, map lowerCaseAddresses ts)) m)
     = map (\<lambda>(h, ts). (h, map lowerCaseAddresses ts)) (pushTx tx m)"
  by (induction m) (auto simp: lowerCaseAddresses_sel)

lemma foldl_pushTx_lower:
  "foldl (\<lambda>m tx. pushTx tx m) (map (\<lambda>(h, ts). (h, map lowerCaseAddresses ts)) m)
       (map lowerCaseAddresses raws)
     = map (\<lambda>(h, ts). (h, map lowerCaseAddresses ts)) (foldl (\<lambda>m tx. pushTx tx m) m raws)"
  by (induction raws arbitrary: m) (simp_all add: pushTx_lower)

lemma groupByHash_lower:
  "groupByHash (map lowerCaseAddresses raws)
     = map (\<lambda>(h, ts). (h, map lowerCaseAddresses ts)) (groupByHash raws)"
  using foldl_pushTx_lower [of "[]" raws] by (simp add: groupByHash_def)

lemma forEachGroup_map:
  "forEachGroup f (map G gs) = forEachGroup (\<lambda>g. f (G g)) gs"
  by (induction gs) (simp_all split: sum.splits)

lemma forEachGroup_cong:
  "(\<And>g. g \<in> set gs \<Longrightarrow> f g = f' g) \<Longrightarrow> forEachGroup f gs = forEachGroup f' gs"
  by (induction gs) (simp_all split: sum.splits)

lemma commentOf_lower: "commentOf ext (lowerCaseAddresses e) = commentOf ext e"
  by (simp add: commentOf_def lowerCaseAddresses_sel)

lemma feedExchangeEvent_lower:
  "feedExchangeEvent api h (lowerCaseAddresses a) (lowerCaseAddresses b)
     = feedExchangeEvent api h a b"
  by (simp add: feedExchangeEvent_def lowerCaseAddresses_sel getTokenAtAddress_lower
        split: sum.splits)

lemma feedTransferEvent_lower:
  "feedTransferEvent ext api u h (lowerCaseAddresses e) = feedTransferEvent ext api u h e"
  by (simp add: feedTransferEvent_def lowerCaseAddresses_sel getTokenAtAddress_lower
        toLowerCase_idem commentOf_lower Let_def split: sum.splits prod.splits)

lemma feedGroupEvents_lower:
  "feedGroupEvents ext api u (h, map lowerCaseAddresses txs) = feedGroupEvents ext api u (h, txs)"
proof (cases "length txs = 2")
  case True
  then obtain t0 t1 where "txs = [t0, t1]"
    by (cases txs; cases "tl txs") auto
  then show ?thesis
    by (simp add: feedGroupEvents_def exchangeLegs_def lowerCaseAddresses_sel toLowerCase_idem
          feedExchangeEvent_lower)
next
  case False
  then show ?thesis
    by (cases txs) (simp_all add: feedGroupEvents_def feedTransferEvent_lower)
qed

lemma feedEventsPushed_lower:
  "feedEventsPushed ext api u (map lowerCaseAddresses raws) = feedEventsPushed ext api u raws"
  unfolding feedEventsPushed_def groupByHash_lower forEachGroup_map
  by (rule forEachGroup_cong) (auto simp: feedGroupEvents_lower)

lemma rewardsPushed_lower:
  "rewardsPushed ext api (map lowerCaseAddresses ts) = rewardsPushed ext api ts"
  by (induction ts)
     (simp_all add: lowerCaseAddresses_sel toLowerCase_idem getTokenAtAddress_lower
        commentOf_lower split: sum.splits)

lemma isStableTransfer_lower:
  "isStableTransfer api (lowerCaseAddresses tx) = isStableTransfer api tx"
  by (simp add: isStableTransfer_def lowerCaseAddresses_sel toLowerCase_idem)

lemma insertBy_map:
  "(\<And>a b. cmp (f a) (f b) = cmp a b) \<Longrightarrow>
     insertBy cmp (f x) (map f ys) = map f (insertBy cmp x ys)"
  by (induction ys) simp_all

lemma sortBy_map:
  assumes "\<And>a b. cmp (f a) (f b) = cmp a b"
  shows "sortBy cmp (map f xs) = map f (sortBy cmp xs)"
proof (induction xs)
  case Nil
  show ?case by (simp add: sortBy_def)
next
  case (Cons x xs)
  then have "insertBy cmp (f x) (sortBy cmp (map f xs)) = map f (insertBy cmp x (sortBy cmp xs))"
    by (simp add: insertBy_map [of cmp f, OF assms])
  then show ?case by (simp add: sortBy_def)
qed

lemma stableTokenTxs_lower:
  "stableTokenTxs api (map lowerCaseAddresses txs) = map lowerCaseAddresses (stableTokenTxs api txs)"
proof -
  have "filter (isStableTransfer api) (map lowerCaseAddresses txs)
          = map lowerCaseAddresses (filter (isStableTransfer api) txs)"
    by (simp add: filter_map o_def isStableTransfer_lower)
  then show ?thesis
    by (simp add: stableTokenTxs_def sortBy_map byValueDesc_def lowerCaseAddresses_sel)
qed

lemma selectTransfer_lower:
  "selectTransfer (map lowerCaseAddresses xs) = map_option lowerCaseAddresses (selectTransfer xs)"
  by (induction xs rule: selectTransfer.induct) (simp_all add: lowerCaseAddresses_sel Let_def)

lemma tokenTransferEvent_lower:
  "tokenTransferEvent ext api u h (lowerCaseAddresses e) = tokenTransferEvent ext api u h e"
  by (simp add: tokenTransferEvent_def lowerCaseAddresses_sel toLowerCase_idem commentOf_lower
        Let_def split: sum.splits prod.splits)

lemma tokenExchangeEvents_lower:
  "tokenExchangeEvents token h (lowerCaseAddresses a) (lowerCaseAddresses b)
     = tokenExchangeEvents token h a b"
proof (cases "tokenSymbol a = token")
  case True
  then show ?thesis
    by (simp add: tokenExchangeEvents_def lowerCaseAddresses_sel Let_def)
next
  case False
  then have "tokenSymbol b = token \<Longrightarrow> b \<noteq> a"
    and "tokenSymbol b = token \<Longrightarrow> lowerCaseAddresses b \<noteq> lowerCaseAddresses a"
    by (auto dest: arg_cong [where f = tokenSymbol] simp: lowerCaseAddresses_sel)
  with False show ?thesis
    by (simp add: tokenExchangeEvents_def lowerCaseAddresses_sel Let_def)
qed

lemma tokenGroupEvents_lower:
  "tokenGroupEvents ext api u token (h, map lowerCaseAddresses txs)
     = tokenGroupEvents ext api u token (h, txs)"
proof (cases "length txs = 2")
  case True
  then obtain t0 t1 where "txs = [t0, t1]"
    by (cases txs; cases "tl txs") auto
  then show ?thesis
    by (simp add: tokenGroupEvents_def exchangeLegs_def lowerCaseAddresses_sel toLowerCase_idem
          tokenExchangeEvents_lower)
next
  case False
  then show ?thesis
    by (cases "selectTransfer (stableTokenTxs api txs)")
       (simp_all add: tokenGroupEvents_def stableTokenTxs_lower selectTransfer_lower
          tokenTransferEvent_lower)
qed

lemma tokenEventsPushed_lower:
  "tokenEventsPushed ext api u token (map lowerCaseAddresses raws)
     = tokenEventsPushed ext api u token raws"
  unfolding tokenEventsPushed_def groupByHash_lower forEachGroup_map
  by (rule forEachGroup_cong) (auto simp: tokenGroupEvents_lower)

text \<open>
  C9. Two lookup arguments, two viewing addresses and two lists of rows that differ only
  in the letter case of their addresses give the same result of \<open>getTokenAtAddress\<close>,
  of \<open>getFeedEvents\<close>, of \<open>getFeedRewards\<close> and of \<open>getTokenTransactions\<close>
  (events, errors and registry), and the same decisions of the stable-token filter, on
  any one registry. The addresses that the registry holds are compared as they are
  stored.
\<close>

theorem address_case_insensitive:
  assumes "toLowerCase tokenAddr = toLowerCase tokenAddr'"
      and "toLowerCase argsAddress = toLowerCase argsAddress'"
      and "map lowerCaseAddresses raws = map lowerCaseAddresses raws'"
  shows "getTokenAtAddress api tokenAddr = getTokenAtAddress api tokenAddr'
       \<and> getFeedEvents ext resolved raws argsAddress api
           = getFeedEvents ext resolved raws' argsAddress' api
       \<and> getFeedRewards ext resolved raws api = getFeedRewards ext resolved raws' api
       \<and> getTokenTransactions ext resolved raws argsAddress token api
           = getTokenTransactions ext resolved raws' argsAddress' token api
       \<and> map (isStableTransfer api) raws = map (isStableTransfer api) raws'"
proof -
  have a: "getTokenAtAddress api tokenAddr = getTokenAtAddress api tokenAddr'"
    unfolding getTokenAtAddress_def assms(1) by (rule refl)
  have f: "feedEventsPushed ext api0 u raws = feedEventsPushed ext api0 u raws'" for api0 u
    using feedEventsPushed_lower [of ext api0 u raws] feedEventsPushed_lower [of ext api0 u raws']
          assms(3) by simp
  have r: "rewardsPushed ext api0 raws = rewardsPushed ext api0 raws'" for api0
    using rewardsPushed_lower [of ext api0 raws] rewardsPushed_lower [of ext api0 raws']
          assms(3) by simp
  have t: "tokenEventsPushed ext api0 u token raws = tokenEventsPushed ext api0 u token raws'"
    for api0 u
    using tokenEventsPushed_lower [of ext api0 u token raws]
          tokenEventsPushed_lower [of ext api0 u token raws'] assms(3) by simp
  have "map (isStableTransfer api) (map lowerCaseAddresses rs) = map (isStableTransfer api) rs"
    for rs
    by (simp add: isStableTransfer_lower)
  from this [of raws] this [of raws'] assms(3)
  have s: "map (isStableTransfer api) raws = map (isStableTransfer api) raws'"
    by simp
  from a f r t s assms(2) show ?thesis
    by (simp add: getFeedEvents_def getFeedRewards_def getTokenTransactions_def)
qed

text \<open>
  An instance: rows and a viewing address written with capital letters give the events
  of the sample transfers.
\<close>

theorem address_case_insensitive_witness:
  "fst (getFeedEvents sampleExternals sampleAddresses
     [sampleRow ''h1'' ''0xAA'' ''0xBB'' ''0xC0'' ''cUSD'' 5 50,
      sampleRow ''h2'' ''0xaa'' ''0xBB'' ''0xc0'' ''cUSD'' 6 60,
      sampleRow ''h3'' ''0xAA'' ''0xbb'' ''0xC0'' ''cUSD'' 7 50] ''0xaa'' sampleApi)
   = Inr [\<lparr>type = SENT, timestamp = 60, block = 7,
            payload = TransferValues (roundToDouble (6 / 10 ^ 18)) ''0xbb'' [] ''cUSD'', hash = ''h2''\<rparr>,
          \<lparr>type = SENT, timestamp = 50, block = 7,
            payload = TransferValues (roundToDouble (5 / 10 ^ 18)) ''0xbb'' [] ''cUSD'', hash = ''h1''\<rparr>,
          \<lparr>type = SENT, timestamp = 50, block = 7,
            payload = TransferValues (roundToDouble (7 / 10 ^ 18)) ''0xbb'' [] ''cUSD'', hash = ''h3''\<rparr>]
   \<and> getTokenTransactions sampleExternals sampleAddresses
     [sampleRow ''h1'' ''0xAA'' ''0xBB'' ''0xC0'' ''cUSD'' 5 50,
      sampleRow ''h2'' ''0xaa'' ''0xBB'' ''0xc0'' ''cUSD'' 6 60,
      sampleRow ''h3'' ''0xAA'' ''0xbb'' ''0xC0'' ''cUSD'' 7 50] ''0xaa'' ''cUSD'' sampleApi
     = getTokenTransactions sampleExternals sampleAddresses sampleTransfers ''0xAA'' ''cUSD''
         sampleApi
   \<and> getTokenAtAddress sampleApi ''0xC0'' = getTokenAtAddress sampleApi ''0xc0''
   \<and> getTokenAtAddress sampleApi ''0xC0'' = Inr ''cUSD''"
proof -
  let ?raws = "[sampleRow ''h1'' ''0xAA'' ''0xBB'' ''0xC0'' ''cUSD'' 5 50,
      sampleRow ''h2'' ''0xaa'' ''0xBB'' ''0xc0'' ''cUSD'' 6 60,
      sampleRow ''h3'' ''0xAA'' ''0xbb'' ''0xC0'' ''cUSD'' 7 50]"
  have h1: "toLowerCase ''0xC0'' = toLowerCase ''0xc0''"
    and h2: "toLowerCase ''0xaa'' = toLowerCase ''0xAA''"
    by (simp_all add: lower_samples)
  have h3: "map lowerCaseAddresses ?raws = map lowerCaseAddresses sampleTransfers"
    by (simp add: sampleTransfers_def lowerCaseAddresses_def sampleRow_def lower_samples)
  from address_case_insensitive [OF h1 h2 h3, of sampleApi sampleExternals sampleAddresses "''cUSD''"]
       sample_feed_run
  show ?thesis
    by (simp add: sample_registry)
qed

end
